theory Spec2Isabelle
  imports Main "HOL-Library.Sublist"
begin

section \<open>JavaScript values, strings and errors\<close>

text \<open>
  Strings are byte strings; \<open>toLowerCase\<close> is modelled on the ASCII letters, which is all the
  fixed names of the program contain, and \<open>trim\<close> strips ASCII white space.
\<close>

definition toLowerChar :: "char \<Rightarrow> char" where
  "toLowerChar c =
     (case map_of (zip ''ABCDEFGHIJKLMNOPQRSTUVWXYZ'' ''abcdefghijklmnopqrstuvwxyz'') c of
        Some d \<Rightarrow> d
      | None \<Rightarrow> c)"

definition toLowerCase :: "string \<Rightarrow> string" where
  "toLowerCase s = map toLowerChar s"

definition is_space :: "char \<Rightarrow> bool" where
  "is_space c = (c \<in> set [CHR '' '', CHR 0x09, CHR 0x0A, CHR 0x0B, CHR 0x0C, CHR 0x0D])"

definition trim :: "string \<Rightarrow> string" where
  "trim s = rev (dropWhile is_space (rev (dropWhile is_space s)))"

text \<open>\<open>s.includes(t)\<close>: \<open>t\<close> occurs in \<open>s\<close> as a contiguous run.\<close>

fun str_includes :: "string \<Rightarrow> string \<Rightarrow> bool" where
  "str_includes [] t = (t = [])"
| "str_includes (c # cs) t = (prefix t (c # cs) \<or> str_includes cs t)"

text \<open>
  A thrown value is an \<open>Error\<close> object with a name and a message. \<open>err_string\<close> is
  \<open>String(err)\<close> (\<open>Error.prototype.toString\<close>), and \<open>err_text\<close> is the idiom
  \<open>err.message || err\<close> rendered as a string.
\<close>

datatype js_error = JsError (err_name: string) (err_message: string)

definition err_string :: "js_error \<Rightarrow> string" where
  "err_string e =
     (if err_name e = [] then err_message e
      else if err_message e = [] then err_name e
      else err_name e @ '': '' @ err_message e)"

definition err_text :: "js_error \<Rightarrow> string" where
  "err_text e = (if err_message e \<noteq> [] then err_message e else err_string e)"

definition sbind :: "'e + 'a \<Rightarrow> ('a \<Rightarrow> 'e + 'b) \<Rightarrow> 'e + 'b" where
  "sbind r f = (case r of Inl e \<Rightarrow> Inl e | Inr v \<Rightarrow> f v)"

fun smap :: "('a \<Rightarrow> 'e + 'b) \<Rightarrow> 'a list \<Rightarrow> 'e + 'b list" where
  "smap f [] = Inr []"
| "smap f (x # xs) = sbind (f x) (\<lambda>y. sbind (smap f xs) (\<lambda>ys. Inr (y # ys)))"

section \<open>The Row Source: \<open>src/excel.js\<close>\<close>

text \<open>
  A plain object whose keys and values are strings is an association list in insertion
  order. \<open>obj[k] = v\<close> overwrites in place or appends; the key \<open>__proto__\<close> reaches the
  prototype setter, which ignores a string, so no own property appears.
  \<open>Object.keys\<close> lists integer-like keys first; no such key equals a field name in any
  letter-casing, so the first match of \<open>find\<close> is the one in insertion order.
\<close>

type_synonym obj = "(string \<times> string) list"

definition hasOwn :: "obj \<Rightarrow> string \<Rightarrow> bool" where
  "hasOwn ob k = (map_of ob k \<noteq> None)"

definition obj_get :: "obj \<Rightarrow> string \<Rightarrow> string" where
  "obj_get ob k = (case map_of ob k of Some v \<Rightarrow> v | None \<Rightarrow> [])"

definition obj_set :: "obj \<Rightarrow> string \<Rightarrow> string \<Rightarrow> obj" where
  "obj_set ob k v =
     (if k = ''__proto__'' then ob
      else if hasOwn ob k then map (\<lambda>(k', v'). if k' = k then (k', v) else (k', v')) ob
      else ob @ [(k, v)])"

definition object_keys :: "obj \<Rightarrow> string list" where
  "object_keys ob = map fst ob"

text \<open>
  \<open>obj.hasOwnProperty(n)\<close> looks the method up on the object itself first: a row with a
  column headed \<open>hasOwnProperty\<close> holds a string there, and calling it is a TypeError.
\<close>

definition call_hasOwnProperty :: "obj \<Rightarrow> string \<Rightarrow> js_error + bool" where
  "call_hasOwnProperty ob n =
     (if hasOwn ob ''hasOwnProperty''
      then Inl (JsError ''TypeError'' ''obj.hasOwnProperty is not a function'')
      else Inr (hasOwn ob n))"

fun get :: "obj \<Rightarrow> string list \<Rightarrow> js_error + string" where
  "get ob [] = Inr []"
| "get ob (n # names) =
     sbind (call_hasOwnProperty ob n) (\<lambda>own.
       if own then Inr (obj_get ob n)
       else (case find (\<lambda>k. toLowerCase k = toLowerCase n) (object_keys ob) of
               Some lower \<Rightarrow> if lower \<noteq> [] then Inr (obj_get ob lower) else get ob names
             | None \<Rightarrow> get ob names))"

definition field_aliases :: "(string \<times> string list) list" where
  "field_aliases =
     [(''UserName'', [''UserName'', ''username'', ''user'']),
      (''Password'', [''Password'', ''password'']),
      (''Language'', [''Language'', ''language'']),
      (''LoginDataTime'', [''LoginDataTime'', ''loginDate'', ''LoginDate'']),
      (''ValidateCaptcha'', [''ValidateCaptcha'', ''captcha'', ''ValidateCaptcha'']),
      (''NextPage'', [''NextPage'', ''nextpage'']),
      (''Field1'', [''Field1'', ''field1'']),
      (''Field2'', [''Field2'', ''field2''])]"

text \<open>\<open>get(names) || ''\<close>: the value is a string, so the default only replaces \<open>''\<close> by itself.\<close>

definition normalizeRow :: "obj \<Rightarrow> js_error + obj" where
  "normalizeRow ob =
     smap (\<lambda>(field, names). sbind (get ob names) (\<lambda>v. Inr (field, if v \<noteq> [] then v else [])))
       field_aliases"

text \<open>
  What the two libraries hand back for one path. A cell value is \<open>None\<close> for null or
  undefined and otherwise its \<open>toString()\<close>. The worksheet gives the cells of row 1 as
  \<open>eachCell\<close> visits them (column number, value) and the rows \<open>eachRow\<close> visits (row
  number, cells). The sheetjs side gives the objects of \<open>sheet_to_json\<close>, each value
  \<open>None\<close> for null or undefined and otherwise its \<open>String(...)\<close>.
\<close>

type_synonym cells = "(nat \<times> string option) list"

record worksheet =
  row1 :: cells
  visited :: "(nat \<times> cells) list"

record excel_file =
  resolved :: string
  file_exists :: bool
  is_file :: bool
  file_size :: nat
  exceljs_readFile :: "js_error + worksheet option"
  sheetjs_readFile :: "js_error + (string \<times> string option) list list option"

datatype parser = ExcelJS | SheetJS

record read_outcome =
  attempts :: "parser list"
  warnings :: "string list"
  outcome :: "js_error + obj list"

definition cell_text :: "string option \<Rightarrow> string" where
  "cell_text v = (case v of None \<Rightarrow> [] | Some s \<Rightarrow> trim s)"

definition build_headers :: "cells \<Rightarrow> (nat \<rightharpoonup> string)" where
  "build_headers cs = fold (\<lambda>(colNumber, v) headers. headers(colNumber \<mapsto> cell_text v)) cs Map.empty"

definition row_object :: "(nat \<rightharpoonup> string) \<Rightarrow> cells \<Rightarrow> obj" where
  "row_object headers cs =
     fold (\<lambda>(colNumber, v) ob.
             let header = trim (case headers colNumber of Some h \<Rightarrow> h | None \<Rightarrow> [])
             in if header \<noteq> [] then obj_set ob header (cell_text v) else ob)
          cs []"

definition data_rows :: "worksheet \<Rightarrow> cells list" where
  "data_rows ws = map snd (filter (\<lambda>(rowNumber, cs). rowNumber \<noteq> 1) (visited ws))"

definition primary_parse :: "excel_file \<Rightarrow> js_error + obj list" where
  "primary_parse f =
     sbind (exceljs_readFile f) (\<lambda>worksheet.
       case worksheet of
         None \<Rightarrow> Inr []
       | Some ws \<Rightarrow>
           smap (\<lambda>cs. normalizeRow (row_object (build_headers (row1 ws)) cs)) (data_rows ws))"

definition raw_object :: "(string \<times> string option) list \<Rightarrow> obj" where
  "raw_object r = fold (\<lambda>(k, v) ob. obj_set ob k (cell_text v)) r []"

definition secondary_parse :: "excel_file \<Rightarrow> js_error + obj list" where
  "secondary_parse f =
     sbind (sheetjs_readFile f) (\<lambda>sheet.
       case sheet of
         None \<Rightarrow> Inr []
       | Some raw \<Rightarrow> smap (\<lambda>r. normalizeRow (raw_object r)) raw)"

definition readExcel :: "excel_file \<Rightarrow> read_outcome" where
  "readExcel f =
     (if \<not> file_exists f then
        \<lparr>attempts = [], warnings = [],
         outcome = Inl (JsError ''Error'' (''Excel file not found: '' @ resolved f))\<rparr>
      else if \<not> is_file f \<or> file_size f = 0 then
        \<lparr>attempts = [], warnings = [],
         outcome = Inl (JsError ''Error''
                     (''Excel file is empty or not a regular file: '' @ resolved f))\<rparr>
      else case primary_parse f of
        Inr rows \<Rightarrow> \<lparr>attempts = [ExcelJS], warnings = [], outcome = Inr rows\<rparr>
      | Inl err \<Rightarrow>
          (let w = ''exceljs read failed (trying fallback). Reason: '' @ err_text err
           in case secondary_parse f of
                Inr rows \<Rightarrow> \<lparr>attempts = [ExcelJS, SheetJS], warnings = [w], outcome = Inr rows\<rparr>
              | Inl err2 \<Rightarrow>
                  \<lparr>attempts = [ExcelJS, SheetJS], warnings = [w],
                   outcome = Inl (JsError ''Error''
                     (''Failed to read Excel with both exceljs and xlsx: '' @ err_text err2))\<rparr>))"

section \<open>Values, the document and the page\<close>

text \<open>
  Values that cross the page boundary are dynamically typed. Numbers are the integers;
  an element handle is an opaque object.
\<close>

datatype jsval = JUndefined | JNull | JBool bool | JNum int | JStr string | JArr "string list" | JObj

fun truthy :: "jsval \<Rightarrow> bool" where
  "truthy JUndefined = False"
| "truthy JNull = False"
| "truthy (JBool b) = b"
| "truthy (JNum n) = (n \<noteq> 0)"
| "truthy (JStr s) = (s \<noteq> [])"
| "truthy (JArr xs) = True"
| "truthy JObj = True"

definition js_or :: "jsval \<Rightarrow> jsval \<Rightarrow> jsval" where
  "js_or a b = (if truthy a then a else b)"

fun show_nat :: "nat \<Rightarrow> string" where
  "show_nat n =
     (if n < 10 then [''0123456789'' ! n]
      else show_nat (n div 10) @ [''0123456789'' ! (n mod 10)])"

definition show_int :: "int \<Rightarrow> string" where
  "show_int i = (if i < 0 then ''-'' @ show_nat (nat (- i)) else show_nat (nat i))"

fun join :: "string \<Rightarrow> string list \<Rightarrow> string" where
  "join sep [] = []"
| "join sep [x] = x"
| "join sep (x # y # ys) = x @ sep @ join sep (y # ys)"

fun js_String :: "jsval \<Rightarrow> string" where
  "js_String JUndefined = ''undefined''"
| "js_String JNull = ''null''"
| "js_String (JBool b) = (if b then ''true'' else ''false'')"
| "js_String (JNum n) = show_int n"
| "js_String (JStr s) = s"
| "js_String (JArr xs) = join '','' xs"
| "js_String JObj = ''[object Object]''"

text \<open>\<open>selected && selected.length\<close>\<close>

fun has_length :: "jsval \<Rightarrow> bool" where
  "has_length (JArr xs) = (xs \<noteq> [])"
| "has_length (JStr s) = (s \<noteq> [])"
| "has_length v = False"

text \<open>
  The document answers \<open>querySelector\<close> per selector string. An element carries what the
  page-side functions of the program read and write; \<open>el_type\<close> is empty where the
  element has no \<open>type\<close>, \<open>options\<close> lists (text, value) and is empty off a select, and
  \<open>events\<close> records focus, scroll, click, submit and dispatched events, oldest first.
  Two selectors naming one node are not tracked as aliases.
\<close>

record element =
  tagName :: string
  el_type :: string
  readOnly :: bool
  checked :: bool
  el_value :: string
  options :: "(string \<times> string) list"
  events :: "string list"

type_synonym dom = "string \<Rightarrow> element option"

definition fire :: "string list \<Rightarrow> element \<Rightarrow> element" where
  "fire evs el = el\<lparr>events := events el @ evs\<rparr>"

text \<open>The functions handed to \<open>page.evaluate\<close>, one constructor per function of the source.\<close>

datatype script =
    ScrollIntoView string
  | SetValue string string
  | DispatchChange string
  | SelectByText string string
  | SetChecked string jsval
  | TagName string
  | TypeOrTag string
  | ClickElement string
  | SubmitForm string

definition scrollIntoView_js :: "string \<Rightarrow> dom \<Rightarrow> jsval \<times> dom" where
  "scrollIntoView_js sel d =
     (case d sel of
        None \<Rightarrow> (JUndefined, d)
      | Some el \<Rightarrow> (JUndefined, d(sel \<mapsto> fire [''scrollIntoView''] el)))"

definition setValue_js :: "string \<Rightarrow> string \<Rightarrow> dom \<Rightarrow> jsval \<times> dom" where
  "setValue_js sel val d =
     (case d sel of
        None \<Rightarrow> (JUndefined, d)
      | Some el \<Rightarrow>
          if toLowerCase (tagName el) = ''select'' then (JUndefined, d)
          else
            let el1 = fire [''focus''] el;
                el2 = (if readOnly el1 then el1\<lparr>readOnly := False\<rparr> else el1)
            in if el_type el2 = ''checkbox'' \<or> el_type el2 = ''radio''
               then (JUndefined,
                     d(sel \<mapsto> fire [''change''] (el2\<lparr>checked := (val = ''true'' \<or> val = ''1'')\<rparr>)))
               else (JUndefined, d(sel \<mapsto> fire [''input'', ''change''] (el2\<lparr>el_value := val\<rparr>))))"

definition dispatchChange_js :: "string \<Rightarrow> dom \<Rightarrow> jsval \<times> dom" where
  "dispatchChange_js sel d =
     (case d sel of
        None \<Rightarrow> (JUndefined, d)
      | Some el \<Rightarrow> (JUndefined, d(sel \<mapsto> fire [''change''] el)))"

definition selectByText_js :: "string \<Rightarrow> string \<Rightarrow> dom \<Rightarrow> jsval \<times> dom" where
  "selectByText_js sel text d =
     (case d sel of
        None \<Rightarrow> (JBool False, d)
      | Some el \<Rightarrow>
          (case find (\<lambda>(otext, ovalue). toLowerCase (trim otext) = toLowerCase (trim text))
                     (options el) of
             Some (otext, ovalue) \<Rightarrow>
               (JBool True, d(sel \<mapsto> fire [''change''] (el\<lparr>el_value := ovalue\<rparr>)))
           | None \<Rightarrow>
               (case find (\<lambda>(otext, ovalue). str_includes (toLowerCase otext) (toLowerCase text))
                          (options el) of
                  Some (otext2, ovalue2) \<Rightarrow>
                    (JBool True, d(sel \<mapsto> fire [''change''] (el\<lparr>el_value := ovalue2\<rparr>)))
                | None \<Rightarrow> (JBool False, d))))"

definition should_check :: "jsval \<Rightarrow> bool" where
  "should_check val =
     (val = JBool True \<or> val = JStr ''true'' \<or> val = JNum 1 \<or> val = JStr ''1'' \<or> val = JStr ''on'')"

definition setChecked_js :: "string \<Rightarrow> jsval \<Rightarrow> dom \<Rightarrow> jsval \<times> dom" where
  "setChecked_js sel val d =
     (case d sel of
        None \<Rightarrow> (JUndefined, d)
      | Some el \<Rightarrow>
          if checked el \<noteq> should_check val
          then (JUndefined, d(sel \<mapsto> fire [''change''] (el\<lparr>checked := should_check val\<rparr>)))
          else (JUndefined, d))"

definition tagName_js :: "string \<Rightarrow> dom \<Rightarrow> jsval \<times> dom" where
  "tagName_js sel d =
     (case d sel of None \<Rightarrow> (JNull, d) | Some el \<Rightarrow> (JStr (toLowerCase (tagName el)), d))"

definition typeOrTag_js :: "string \<Rightarrow> dom \<Rightarrow> jsval \<times> dom" where
  "typeOrTag_js sel d =
     (case d sel of
        None \<Rightarrow> (JNull, d)
      | Some el \<Rightarrow>
          (JStr (if el_type el \<noteq> [] then el_type el else toLowerCase (tagName el)), d))"

definition clickElement_js :: "string \<Rightarrow> dom \<Rightarrow> jsval \<times> dom" where
  "clickElement_js sel d =
     (case d sel of
        None \<Rightarrow> (JUndefined, d)
      | Some el \<Rightarrow> (JUndefined, d(sel \<mapsto> fire [''click''] el)))"

definition submitForm_js :: "string \<Rightarrow> dom \<Rightarrow> jsval \<times> dom" where
  "submitForm_js sel d =
     (case d sel of
        None \<Rightarrow> (JUndefined, d)
      | Some el \<Rightarrow> (JUndefined, d(sel \<mapsto> fire [''submit''] el)))"

fun run_script :: "script \<Rightarrow> dom \<Rightarrow> jsval \<times> dom" where
  "run_script (ScrollIntoView sel) d = scrollIntoView_js sel d"
| "run_script (SetValue sel val) d = setValue_js sel val d"
| "run_script (DispatchChange sel) d = dispatchChange_js sel d"
| "run_script (SelectByText sel text) d = selectByText_js sel text d"
| "run_script (SetChecked sel val) d = setChecked_js sel val d"
| "run_script (TagName sel) d = tagName_js sel d"
| "run_script (TypeOrTag sel) d = typeOrTag_js sel d"
| "run_script (ClickElement sel) d = clickElement_js sel d"
| "run_script (SubmitForm sel) d = submitForm_js sel d"

text \<open>
  Every promise-returning call on the page, the browser context and the CSV writer goes to
  the environment, which may change the document and its own hidden state and either
  resolves with a value or rejects with an error. The first group of calls is Puppeteer's
  (the form-fill workflow), the second Playwright's and the driver's other libraries.
  Selectors are strings, falsy when empty.
\<close>

record csv_row =
  username :: string
  success :: string
  message :: string
  screenshot :: string
  stateFile :: string
  targetUrl :: string

datatype select_by = ByString string | ByLabel string

datatype call =
    WaitForTimeout nat
  | WaitForSelector string nat
  | Click string nat
  | Focus string
  | Select string string
  | Query string
  | Goto string
  | Evaluate script
  | ClickWithin string "nat option"
  | Fill string string
  | SelectOption string select_by
  | IsVisible string
  | Url
  | WaitForNavigation
  | WaitForLoadState
  | Screenshot string
  | StorageState string
  | AppendFile string
  | WriteRecords csv_row
  | Launch
  | NewContext
  | NewPage
  | BrowserClose

type_synonym 'x page = "call \<Rightarrow> dom \<times> 'x \<Rightarrow> (js_error + jsval) \<times> (dom \<times> 'x)"

text \<open>
  The state: the document, the environment's hidden state, the calls issued so far with
  their results (oldest first), and the lines written to the console.
\<close>

record 'x world =
  doc :: dom
  hidden :: 'x
  trace :: "(call \<times> (js_error + jsval)) list"
  console :: "string list"

type_synonym ('s, 'a) io = "'s \<Rightarrow> (js_error + 'a) \<times> 's"

definition io_ret :: "'a \<Rightarrow> ('s, 'a) io" where
  "io_ret v = (\<lambda>s. (Inr v, s))"

definition io_throw :: "js_error \<Rightarrow> ('s, 'a) io" where
  "io_throw e = (\<lambda>s. (Inl e, s))"

definition io_bind :: "('s, 'a) io \<Rightarrow> ('a \<Rightarrow> ('s, 'b) io) \<Rightarrow> ('s, 'b) io" where
  "io_bind m f = (\<lambda>s. case m s of (Inl e, s') \<Rightarrow> (Inl e, s') | (Inr v, s') \<Rightarrow> f v s')"

definition io_seq :: "('s, 'a) io \<Rightarrow> ('s, 'b) io \<Rightarrow> ('s, 'b) io" where
  "io_seq m n = io_bind m (\<lambda>_. n)"

text \<open>\<open>try { m } catch (e) { h e }\<close>, and \<open>m.catch(() => v)\<close>.\<close>

definition io_try :: "('s, 'a) io \<Rightarrow> (js_error \<Rightarrow> ('s, 'a) io) \<Rightarrow> ('s, 'a) io" where
  "io_try m h = (\<lambda>s. case m s of (Inl e, s') \<Rightarrow> h e s' | (Inr v, s') \<Rightarrow> (Inr v, s'))"

definition io_catch :: "('s, 'a) io \<Rightarrow> 'a \<Rightarrow> ('s, 'a) io" where
  "io_catch m v = io_try m (\<lambda>e. io_ret v)"

definition io_modify :: "('s \<Rightarrow> 's) \<Rightarrow> ('s, unit) io" where
  "io_modify f = (\<lambda>s. (Inr (), f s))"

definition io_when :: "bool \<Rightarrow> ('s, unit) io \<Rightarrow> ('s, unit) io" where
  "io_when c m = (if c then m else io_ret ())"

fun io_each :: "('a \<Rightarrow> ('s, unit) io) \<Rightarrow> 'a list \<Rightarrow> ('s, unit) io" where
  "io_each f [] = io_ret ()"
| "io_each f (x # xs) = io_seq (f x) (io_each f xs)"

definition pcall :: "'x page \<Rightarrow> call \<Rightarrow> ('x world, jsval) io" where
  "pcall pg c =
     (\<lambda>w. case pg c (doc w, hidden w) of
             (r, (d, h)) \<Rightarrow> (r, w\<lparr>doc := d, hidden := h, trace := trace w @ [(c, r)]\<rparr>))"

text \<open>
  \<open>page.evaluate(fn, args)\<close>: the environment may reject the call; otherwise the function
  runs on the document as it then stands.
\<close>

definition evaluate :: "'x page \<Rightarrow> script \<Rightarrow> ('x world, jsval) io" where
  "evaluate pg sc =
     io_bind (pcall pg (Evaluate sc)) (\<lambda>_ w.
       case run_script sc (doc w) of (v, d) \<Rightarrow> (Inr v, w\<lparr>doc := d\<rparr>))"

definition console_log :: "string \<Rightarrow> ('x world, unit) io" where
  "console_log line = io_modify (\<lambda>w. w\<lparr>console := console w @ [line]\<rparr>)"

section \<open>The form-fill workflow: \<open>src/fillLoanDisbursementFromExcel.js\<close>\<close>

definition DEFAULT_FIELD_MAP :: "string \<rightharpoonup> string" where
  "DEFAULT_FIELD_MAP = map_of
     [(''Admissionno'', ''Admissionno''),
      (''AdmissionNoHidden'', ''AdmissionNoPkey''),
      (''ValueDate'', ''ValueDate''),
      (''Product'', ''Product''),
      (''AccountNo'', ''AccountNo''),
      (''TempAccountNo'', ''TempAccountNo''),
      (''ActivityType'', ''ActivityType''),
      (''VoucherType'', ''VoucherType''),
      (''ChequeNo'', ''ChequeNo''),
      (''ChequeDate'', ''ChequeDate''),
      (''VoucherNo'', ''VoucherNo''),
      (''ContraProduct'', ''ContraProduct''),
      (''ContraAccountNo'', ''ContraAccountNo''),
      (''SocietyVoucherNo'', ''SocietyVoucherNo''),
      (''Narration'', ''Narration''),
      (''TotalAmount'', ''TotalAmount''),
      (''AmountInWords'', ''AmountInWords''),
      (''MoreDisbursementDetaos_ApplicationNo'', ''MoreDisbursementDetaos_ApplicationNo''),
      (''MoreDisbursementDetaos_AdmissionNoPkey'', ''MoreDisbursementDetaos_AdmissionNoPkey''),
      (''MoreDisbursementDetaos_ProductSlNo'', ''MoreDisbursementDetaos_ProductSlNo''),
      (''MoreDisbursementDetaos_LoanNo'', ''MoreDisbursementDetaos_LoanNo''),
      (''MoreDisbursementDetaos_OldLoanNo'', ''MoreDisbursementDetaos_OldLoanNo''),
      (''MoreDisbursementDetaos_DPNDate'', ''MoreDisbursementDetaos_DPNDate''),
      (''MoreDisbursementDetaos_DPNNo'', ''MoreDisbursementDetaos_DPNNo''),
      (''MoreDisbursementDetaos_DueDate'', ''MoreDisbursementDetaos_DueDate''),
      (''MoreDisbursementDetaos_DateOfAdvice'', ''MoreDisbursementDetaos_DateOfAdvice''),
      (''MoreDisbursementDetaos_DebitSlipNo'', ''MoreDisbursementDetaos_DebitSlipNo''),
      (''MoreDisbursementDetaos_LedgerFolioNo'', ''MoreDisbursementDetaos_LedgerFolioNo''),
      (''MoreDisbursementDetaos_DCCBSBNo'', ''MoreDisbursementDetaos_DCCBSBNo''),
      (''MoreDisbursementDetaos_PolicyName'', ''MoreDisbursementDetaos_PolicyName''),
      (''MoreDisbursementDetaos_ROI'', ''MoreDisbursementDetaos_ROI''),
      (''MoreDisbursementDetaos_PenalROI'', ''MoreDisbursementDetaos_PenalROI''),
      (''MoreDisbursementDetaos_IOAROI'', ''MoreDisbursementDetaos_IOAROI''),
      (''MoreDisbursementDetaos_DisbursmentAmount'', ''MoreDisbursementDetaos_DisbursmentAmount''),
      (''IdTransfer'', ''IdTransfer''),
      (''IdCash'', ''IdCash''),
      (''IdCheck'', ''IdCheck'')]"

text \<open>\<open>opts.timeout || 5000\<close>: an absent option and 0 both give the default.\<close>

definition or_default :: "nat option \<Rightarrow> nat \<Rightarrow> nat" where
  "or_default v dflt = (case v of Some n \<Rightarrow> if n \<noteq> 0 then n else dflt | None \<Rightarrow> dflt)"

record click_opts =
  timeout :: "nat option"
  delay :: "nat option"
  clickTimeout :: "nat option"

definition no_opts :: click_opts where
  "no_opts = \<lparr>timeout = None, delay = None, clickTimeout = None\<rparr>"

definition safeClick :: "'x page \<Rightarrow> string \<Rightarrow> click_opts \<Rightarrow> ('x world, bool) io" where
  "safeClick pg selector opts =
     io_try
       (io_seq (pcall pg (WaitForSelector selector (or_default (timeout opts) 5000)))
       (io_seq (evaluate pg (ScrollIntoView selector))
       (io_seq (pcall pg (Click selector (or_default (delay opts) 50)))
               (io_ret True))))
       (\<lambda>e. io_ret False)"

definition setInputValue :: "'x page \<Rightarrow> string \<Rightarrow> jsval \<Rightarrow> ('x world, bool) io" where
  "setInputValue pg selector v =
     (if v = JUndefined \<or> v = JNull then io_ret False
      else
        io_try
          (io_seq (pcall pg (WaitForSelector selector 4000))
          (io_seq (evaluate pg (SetValue selector (js_String v)))
          (io_seq (io_catch (pcall pg (Focus selector)) JUndefined)
          (io_seq (pcall pg (WaitForTimeout 120))
                  (io_ret True)))))
          (\<lambda>e. io_ret False))"

definition selectOption :: "'x page \<Rightarrow> string \<Rightarrow> jsval \<Rightarrow> ('x world, bool) io" where
  "selectOption pg selector v =
     (if v = JUndefined \<or> v = JNull then io_ret False
      else
        io_try
          (io_seq (pcall pg (WaitForSelector selector 4000))
          (io_bind (io_catch (pcall pg (Select selector (js_String v))) (JArr [])) (\<lambda>selected.
             if truthy selected \<and> has_length selected then
               io_seq (evaluate pg (DispatchChange selector))
               (io_seq (pcall pg (WaitForTimeout 150))
                       (io_ret True))
             else
               io_bind (evaluate pg (SelectByText selector (js_String v))) (\<lambda>didByText.
               io_seq (pcall pg (WaitForTimeout 100))
                      (io_ret (didByText = JBool True))))))
          (\<lambda>e. io_ret False))"

definition setCheckbox :: "'x page \<Rightarrow> string \<Rightarrow> jsval \<Rightarrow> ('x world, bool) io" where
  "setCheckbox pg selector truthy_val =
     io_try
       (io_seq (pcall pg (WaitForSelector selector 3000))
       (io_seq (evaluate pg (SetChecked selector truthy_val))
               (io_ret True)))
       (\<lambda>e. io_ret False)"

text \<open>
  A spreadsheet row as \<open>sheet_to_json\<close> gives it: the keys in \<open>Object.keys\<close> order with
  their values; \<open>row[k]\<close> is undefined for an absent key.
\<close>

type_synonym row = "(string \<times> jsval) list"

definition row_get :: "row \<Rightarrow> string \<Rightarrow> jsval" where
  "row_get r k = (case map_of r k of Some v \<Rightarrow> v | None \<Rightarrow> JUndefined)"

record row_result =
  rowIndex :: nat
  filled :: "string list"
  errors :: "string list"
  ok :: "bool option"
  exception :: "string option"

text \<open>
  The field map gives \<open>fieldMap[header]\<close>, \<open>None\<close> where it is undefined; a form field id is
  a string, falsy when empty. The result \<open>None\<close> is \<open>null\<close>.
\<close>

definition mapHeaderToId :: "(string \<rightharpoonup> string) \<Rightarrow> string \<Rightarrow> string option" where
  "mapHeaderToId fieldMap header =
     (if header = [] then None
      else case fieldMap header of
             Some fid \<Rightarrow> if fid \<noteq> [] then Some fid else Some header
           | None \<Rightarrow> Some header)"

definition dq :: string where
  "dq = [CHR 0x22]"

text \<open>
  While a row is processed the state pairs the local variables that the \<open>try\<close> block
  mutates (here the Row Result under construction) with the world, so that what was set
  before an exception is still there in the handler.
\<close>

definition in_page :: "('w, 'a) io \<Rightarrow> ('l \<times> 'w, 'a) io" where
  "in_page m = (\<lambda>(rr, w). case m w of (r, w') \<Rightarrow> (r, (rr, w')))"

definition push_filled :: "string \<Rightarrow> (row_result \<times> 'x world, unit) io" where
  "push_filled fid = io_modify (\<lambda>(rr, w). (rr\<lparr>filled := filled rr @ [fid]\<rparr>, w))"

definition push_error :: "string \<Rightarrow> (row_result \<times> 'x world, unit) io" where
  "push_error msg = io_modify (\<lambda>(rr, w). (rr\<lparr>errors := errors rr @ [msg]\<rparr>, w))"

definition is_blank :: "jsval \<Rightarrow> bool" where
  "is_blank rawVal = (rawVal = JStr [] \<or> rawVal = JNull \<or> rawVal = JUndefined)"

definition looks_like_checkbox :: "string \<Rightarrow> bool" where
  "looks_like_checkbox fieldId =
     (str_includes (toLowerCase fieldId) ''is'' \<or> str_includes (toLowerCase fieldId) ''id''
      \<or> str_includes (toLowerCase fieldId) ''chk'')"

definition fill_default :: "'x page \<Rightarrow> string \<Rightarrow> jsval \<Rightarrow> (row_result \<times> 'x world, unit) io" where
  "fill_default pg fieldId val =
     io_bind (in_page (setInputValue pg (''#'' @ fieldId) val)) (\<lambda>ok1.
       if ok1 then push_filled fieldId
       else
         io_bind (in_page (setInputValue pg (''[name='' @ dq @ fieldId @ dq @ '']'') val)) (\<lambda>ok2.
           if ok2 then push_filled (fieldId @ ''(byName)'')
           else push_error (''Could not set value for '' @ fieldId @ '' (tried id & name)'')))"

text \<open>
  One iteration of the fields loop up to its trailing pause. The result is \<open>False\<close> where
  the source leaves the iteration by \<open>continue\<close>, \<open>True\<close> where it goes on to the pause.
\<close>

definition field_actions ::
  "'x page \<Rightarrow> (string \<rightharpoonup> string) \<Rightarrow> row \<Rightarrow> string \<Rightarrow> (row_result \<times> 'x world, bool) io" where
  "field_actions pg fieldMap r colHeader =
     (let rawVal = row_get r colHeader in
      if is_blank rawVal then io_ret False
      else
        case mapHeaderToId fieldMap colHeader of
          None \<Rightarrow>
            io_seq (push_error (''No mapping for Excel header '' @ dq @ colHeader @ dq))
                   (io_ret False)
        | Some fieldId \<Rightarrow>
            if fieldId = [] then
              io_seq (push_error (''No mapping for Excel header '' @ dq @ colHeader @ dq))
                     (io_ret False)
            else
              io_bind (in_page (io_catch (evaluate pg (TagName (''#'' @ fieldId))) JNull))
              (\<lambda>elementType.
                if elementType = JStr ''select'' then
                  io_bind (in_page (selectOption pg (''#'' @ fieldId) rawVal)) (\<lambda>ok1.
                  io_seq (if ok1 then push_filled fieldId
                          else push_error (''Could not select '' @ fieldId @ '' -> ''
                                           @ js_String rawVal))
                         (io_ret True))
                else if elementType = JStr ''input'' \<or> elementType = JStr ''textarea''
                        \<or> elementType = JStr ''null'' then
                  io_bind
                    (if looks_like_checkbox fieldId then
                       io_bind (in_page (io_catch (evaluate pg (TypeOrTag (''#'' @ fieldId))) JNull))
                         (\<lambda>tag. io_ret (tag = JStr ''checkbox''))
                     else io_ret False)
                  (\<lambda>is_checkbox.
                    if is_checkbox then
                      io_bind (in_page (setCheckbox pg (''#'' @ fieldId) rawVal)) (\<lambda>ok1.
                      io_seq (if ok1 then push_filled fieldId
                              else push_error (''Could not set checkbox '' @ fieldId))
                             (io_ret False))
                    else io_seq (fill_default pg fieldId rawVal) (io_ret True))
                else
                  io_bind (in_page (setInputValue pg (''#'' @ fieldId) rawVal)) (\<lambda>ok1.
                  io_seq (if ok1 then push_filled fieldId
                          else push_error (''Unknown element type or not found for '' @ fieldId))
                         (io_ret True))))"

definition field_step ::
  "'x page \<Rightarrow> (string \<rightharpoonup> string) \<Rightarrow> row \<Rightarrow> string \<Rightarrow> (row_result \<times> 'x world, unit) io" where
  "field_step pg fieldMap r colHeader =
     io_bind (field_actions pg fieldMap r colHeader) (\<lambda>go_on.
       io_when go_on (io_seq (in_page (pcall pg (WaitForTimeout 120))) (io_ret ())))"

record fill_opts =
  fieldMap :: "(string \<rightharpoonup> string) option"
  submitAfterRow :: bool
  clickPrepareInsteadOfPost :: bool
  redirectUrlAfterSubmit :: "string option"

definition redirectUrl :: "fill_opts \<Rightarrow> string option" where
  "redirectUrl opts =
     (case redirectUrlAfterSubmit opts of
        Some u \<Rightarrow> if u \<noteq> [] then Some u else None
      | None \<Rightarrow> None)"

definition total_amount_step :: "'x page \<Rightarrow> row \<Rightarrow> ('x world, unit) io" where
  "total_amount_step pg r =
     (let maybeDisbAmount =
            js_or (row_get r ''MoreDisbursementDetaos_DisbursmentAmount'')
                  (row_get r (toLowerCase ''MoreDisbursementDetaos_DisbursmentAmount''))
      in io_when (truthy maybeDisbAmount
                  \<and> \<not> truthy (js_or (row_get r ''TotalAmount'')
                                     (row_get r (toLowerCase ''TotalAmount''))))
           (io_seq (io_catch (setInputValue pg ''#TotalAmount'' maybeDisbAmount) False)
                   (io_ret ())))"

definition save_disbursement_step :: "'x page \<Rightarrow> row \<Rightarrow> ('x world, unit) io" where
  "save_disbursement_step pg r =
     io_when (list_ex (\<lambda>h. prefix ''MoreDisbursementDetaos'' h) (map fst r))
       (io_bind (pcall pg (Query ''#btnsaveDisbursments'')) (\<lambda>savedisb.
          io_when (truthy savedisb)
            (io_seq (evaluate pg (ClickElement ''#btnsaveDisbursments''))
            (io_seq (pcall pg (WaitForTimeout 600))
                    (io_ret ())))))"

definition submit_step :: "'x page \<Rightarrow> fill_opts \<Rightarrow> ('x world, unit) io" where
  "submit_step pg opts =
     io_when (submitAfterRow opts)
       (io_seq
          (if clickPrepareInsteadOfPost opts then
             io_bind (pcall pg (Query ''#btnPost'')) (\<lambda>btnPostExists.
               if truthy btnPostExists
               then io_seq (io_catch (evaluate pg (ClickElement ''#btnPost'')) JUndefined)
                           (io_ret ())
               else io_seq (safeClick pg ''#btnSave'' no_opts) (io_ret ()))
           else
             io_bind (safeClick pg ''#btnSave'' no_opts) (\<lambda>ok1.
               io_when (\<not> ok1)
                 (io_seq (io_catch (evaluate pg
                            (SubmitForm (''form[action*='' @ dq @ ''TransactionPayment'' @ dq @ '']'')))
                          JUndefined)
                         (io_ret ()))))
       (io_seq (pcall pg (WaitForTimeout 1000))
          (case redirectUrl opts of
             Some u \<Rightarrow>
               io_seq (io_catch (pcall pg (Goto u)) JUndefined)
               (io_seq (pcall pg (WaitForTimeout 600)) (io_ret ()))
           | None \<Rightarrow> io_ret ())))"

text \<open>
  The body of the \<open>try\<close> of one row: its steps, then \<open>rowResult.ok = true\<close>; and the row
  with its handler.
\<close>

definition row_steps ::
  "'x page \<Rightarrow> (string \<rightharpoonup> string) \<Rightarrow> fill_opts \<Rightarrow> row \<Rightarrow> (row_result \<times> 'x world, unit) io" where
  "row_steps pg fm opts r =
     io_seq (in_page (pcall pg (WaitForTimeout 200)))
     (io_seq (io_each (field_step pg fm r) (map fst r))
     (io_seq (in_page (total_amount_step pg r))
     (io_seq (in_page (save_disbursement_step pg r))
             (in_page (submit_step pg opts)))))"

definition row_body ::
  "'x page \<Rightarrow> (string \<rightharpoonup> string) \<Rightarrow> fill_opts \<Rightarrow> row \<Rightarrow> (row_result \<times> 'x world, unit) io" where
  "row_body pg fm opts r =
     io_seq (row_steps pg fm opts r)
            (io_modify (\<lambda>(rr, w). (rr\<lparr>ok := Some True\<rparr>, w)))"

definition process_row ::
  "'x page \<Rightarrow> (string \<rightharpoonup> string) \<Rightarrow> fill_opts \<Rightarrow> nat \<Rightarrow> row \<Rightarrow> ('x world, row_result) io" where
  "process_row pg fm opts i r =
     (\<lambda>w. case io_try (row_body pg fm opts r)
                   (\<lambda>err. io_modify (\<lambda>(rr, w'). (rr\<lparr>ok := Some False,
                                                     exception := Some (err_text err)\<rparr>, w')))
                   (\<lparr>rowIndex = i, filled = [], errors = [], ok = None, exception = None\<rparr>, w)
           of (res, (rr, w')) \<Rightarrow> (Inr rr, w'))"

fun rows_loop ::
  "'x page \<Rightarrow> (string \<rightharpoonup> string) \<Rightarrow> fill_opts \<Rightarrow> nat \<Rightarrow> row list \<Rightarrow> row_result list
     \<Rightarrow> ('x world, row_result list) io" where
  "rows_loop pg fm opts i [] results = io_ret results"
| "rows_loop pg fm opts i (r # rest) results =
     io_bind (process_row pg fm opts i r) (\<lambda>rowResult.
     io_seq (pcall pg (WaitForTimeout 500))
            (rows_loop pg fm opts (Suc i) rest (results @ [rowResult])))"

text \<open>The file system and \<open>readExcelRows\<close> (sheetjs) as the workflow sees them for a path.\<close>

record xlsx_env =
  existsSync :: "string \<Rightarrow> bool"
  readExcelRows :: "string \<Rightarrow> js_error + row list"

record fill_result =
  res_ok :: bool
  res_message :: "string option"
  res_rows :: "nat option"
  res_results :: "row_result list option"

definition fillLoanDisbursementFromExcel ::
  "'x page \<Rightarrow> xlsx_env \<Rightarrow> string \<Rightarrow> fill_opts \<Rightarrow> ('x world, fill_result) io" where
  "fillLoanDisbursementFromExcel pg fs excelPath opts =
     (let fm = (case fieldMap opts of Some m \<Rightarrow> m | None \<Rightarrow> DEFAULT_FIELD_MAP) in
      if \<not> existsSync fs excelPath
      then io_throw (JsError ''Error'' (''Excel file not found: '' @ excelPath))
      else
        case readExcelRows fs excelPath of
          Inl e \<Rightarrow> io_throw e
        | Inr rows \<Rightarrow>
            if rows = [] then
              io_ret \<lparr>res_ok = False, res_message = Some ''No rows in excel'',
                      res_rows = None, res_results = None\<rparr>
            else
              io_bind (rows_loop pg fm opts 0 rows []) (\<lambda>results.
                io_ret \<lparr>res_ok = True, res_message = None,
                        res_rows = Some (length rows), res_results = Some results\<rparr>))"

section \<open>The driver: \<open>src/config.js\<close> and the automation script\<close>

definition SELECTORS :: "(string \<times> string) list" where
  "SELECTORS =
     [(''userName'', ''#UserName''),
      (''password'', ''#Password''),
      (''language'', ''#Language''),
      (''loginDate'', ''#LoginDataTime''),
      (''validateCaptcha'', ''#ValidateCaptcha''),
      (''captchaImage'', ''#imgcapt''),
      (''loginButton'', ''button[type='' @ dq @ ''submit'' @ dq @ ''], button[onclick*='' @ dq
                         @ ''ValidateAndLogin'' @ dq @ ''], #btnView, .login-btn''),
      (''nextFormSelector'', ''form#profile-form''),
      (''nextField1'', ''input[name='' @ dq @ ''field1'' @ dq @ '']''),
      (''nextField2'', ''input[name='' @ dq @ ''field2'' @ dq @ '']''),
      (''nextSubmit'', ''button[type='' @ dq @ ''submit'' @ dq @ '']'')]"

definition sel :: "string \<Rightarrow> string \<Rightarrow> string" where
  "sel key fallback =
     (case map_of SELECTORS key of
        Some v \<Rightarrow> if v \<noteq> [] then v else fallback
      | None \<Rightarrow> fallback)"


definition safeFill :: "'x page \<Rightarrow> string \<Rightarrow> jsval \<Rightarrow> click_opts \<Rightarrow> ('x world, bool) io" where
  "safeFill pg selector v opts =
     (if selector = [] \<or> v = JUndefined \<or> v = JNull then io_ret False
      else
        io_try
          (io_seq (io_catch (pcall pg (WaitForSelector selector (or_default (timeout opts) 4000))) JNull)
          (io_seq (io_catch (pcall pg (Fill selector (js_String v))) JNull)
                  (io_ret True)))
          (\<lambda>e. io_ret False))"

definition safeSelect :: "'x page \<Rightarrow> string \<Rightarrow> jsval \<Rightarrow> click_opts \<Rightarrow> ('x world, bool) io" where
  "safeSelect pg selector v opts =
     (if selector = [] \<or> v = JUndefined \<or> v = JNull then io_ret False
      else
        io_try
          (io_seq (io_catch (pcall pg (WaitForSelector selector (or_default (timeout opts) 4000))) JNull)
          (io_seq (io_try (pcall pg (SelectOption selector (ByString (js_String v))))
                     (\<lambda>e. io_seq (io_catch (pcall pg (SelectOption selector (ByLabel (js_String v))))
                                     JNull)
                                  (io_ret JUndefined)))
                  (io_ret True)))
          (\<lambda>e. io_ret False))"

text \<open>
  \<open>appendLog\<close> appends to the log file, ignoring a failure, and prints the line. The
  time stamp put before the line in the file is the environment's.
\<close>

definition appendLog :: "'x page \<Rightarrow> string \<Rightarrow> ('x world, unit) io" where
  "appendLog pg line =
     io_seq (io_catch (pcall pg (AppendFile line)) JUndefined) (console_log line)"

definition emdash :: string where
  "emdash = [CHR 0xE2, CHR 0x80, CHR 0x94]"

definition waitForManualCaptchaSolve :: "'x page \<Rightarrow> ('x world, unit) io" where
  "waitForManualCaptchaSolve pg =
     io_seq (appendLog pg (''Captcha present '' @ emdash
                           @ '' waiting for manual solve in the browser...''))
     (io_seq (pcall pg (WaitForTimeout 10000)) (io_ret ()))"

text \<open>
  What the script takes from its host: the clock behind \<open>Date.now()\<close>, the engine's
  date parsing behind \<open>formatDateForInput\<close>, and the form filling proper
  (\<open>fillTransactionPaymentForm\<close>), which is taken as any computation on the world: the
  results below hold whatever it does.
\<close>

record 'x host =
  date_now :: "'x \<Rightarrow> int"
  formatDateForInput :: "string \<Rightarrow> string"
  fillTransactionPaymentForm :: "('x world, unit) io"

definition now_io :: "'x host \<Rightarrow> ('x world, string) io" where
  "now_io H = (\<lambda>w. (Inr (show_int (date_now H (hidden w))), w))"

text \<open>
  A Record of the Row Source; \<open>row.F\<close> is read only for its truthiness or under \<open>||\<close>,
  where an absent field and the empty string agree. The two promises under \<open>Promise.all\<close>
  are issued in the order of the source and are modelled one after the other.
\<close>

definition attemptLogin :: "'x page \<Rightarrow> 'x host \<Rightarrow> obj \<Rightarrow> ('x world, unit) io" where
  "attemptLogin pg H r =
     io_seq (console_log ''step 1'')
     (io_seq (io_when (obj_get r ''UserName'' \<noteq> [])
        (io_seq (safeFill pg
                   (sel ''userName'' (''#UserName, input[name='' @ [CHR 0x27] @ ''UserName''
                                     @ [CHR 0x27] @ ''], input#UserName''))
                   (JStr (obj_get r ''UserName'')) no_opts) (io_ret ())))
     (io_seq (console_log ''step 2'')
     (io_seq (io_when (obj_get r ''Password'' \<noteq> [])
        (io_seq (safeFill pg
                   (sel ''password'' (''#Password, input[name='' @ [CHR 0x27] @ ''Password''
                                     @ [CHR 0x27] @ '']''))
                   (JStr (obj_get r ''Password'')) no_opts) (io_ret ())))
     (io_seq (console_log ''step 3'')
     (io_seq (io_when (obj_get r ''LoginDataTime'' \<noteq> []
                       \<and> formatDateForInput H (obj_get r ''LoginDataTime'') \<noteq> [])
        (io_seq (io_catch (safeFill pg
                   (sel ''loginDate'' (''#loginDate, input[name='' @ [CHR 0x27] @ ''LoginDataTime''
                                      @ [CHR 0x27] @ ''], #LoginDataTime''))
                   (JStr (formatDateForInput H (obj_get r ''LoginDataTime''))) no_opts) False)
                (io_ret ())))
     (io_seq (console_log ''step 4'')
     (io_seq (console_log ''waiting for captcha'')
     (io_bind (pcall pg (Query (sel ''captchaImage'' ''#CaptchaImage, img.captcha'')))
        (\<lambda>captchaExists.
     io_seq (io_when (truthy captchaExists) (waitForManualCaptchaSolve pg))
     (io_seq (console_log ''capcha solved'')
     (io_seq (io_catch (pcall pg WaitForNavigation) JNull)
     (io_seq (io_catch (pcall pg (ClickWithin
                 (sel ''loginButton'' (''#loginButton, button#Login, input[type='' @ [CHR 0x27]
                                       @ ''submit'' @ [CHR 0x27] @ '']'')) None)) JNull)
             (console_log ''logged in'')))))))))))))"

record config =
  LOGIN_URL :: string
  HEADLESS :: bool
  DRY_RUN :: bool
  EXCEL_PATH :: string
  RETRY_LOGIN :: "int option"
  MAX_ROWS :: "int option"
  SAVE_SCREENSHOT_ON_SUCCESS :: bool
  GLOBAL_FAS_URL :: "string option"
  LOGS_DIR :: string

text \<open>
  \<open>RETRY_LOGIN\<close> and \<open>MAX_ROWS\<close> come from \<open>parseInt\<close>: \<open>None\<close> is \<open>NaN\<close> (and, for
  \<open>MAX_ROWS\<close>, also \<open>null\<close>, which is falsy as well). \<open>path.join\<close> is modelled as joining
  with a slash.
\<close>

definition path_join :: "string \<Rightarrow> string \<Rightarrow> string" where
  "path_join dir name = dir @ ''/'' @ name"

fun first_visible :: "'x page \<Rightarrow> string list \<Rightarrow> ('x world, bool) io" where
  "first_visible pg [] = io_ret False"
| "first_visible pg (s # ss) =
     (if s = [] then first_visible pg ss
      else
        io_bind (io_catch (pcall pg (Query s)) JNull) (\<lambda>el.
          if truthy el then
            io_bind (io_catch (pcall pg (IsVisible s)) (JBool False)) (\<lambda>visible.
              if truthy visible then io_ret True else first_visible pg ss)
          else first_visible pg ss))"

text \<open>\<open>page.url()\<close> answers with a string; on any other value no redirection is seen.\<close>

definition url_away :: "config \<Rightarrow> jsval \<Rightarrow> bool" where
  "url_away C url =
     (case url of
        JStr u \<Rightarrow> u \<noteq> [] \<and> \<not> str_includes u ''/Login'' \<and> \<not> str_includes u ''/Home''
                  \<and> u \<noteq> LOGIN_URL C
      | _ \<Rightarrow> False)"

definition successHeuristic :: "'x page \<Rightarrow> config \<Rightarrow> ('x world, bool) io" where
  "successHeuristic pg C =
     io_bind (first_visible pg
                [sel ''logout'' ''#logout, a.logout, button.logout'',
                 sel ''userMenu'' ''#userMenu, .user-menu, .profile-menu''])
     (\<lambda>found.
       if found then io_ret True
       else
         io_bind (io_catch (pcall pg (Query
                    (sel ''userName'' (''#UserName, input[name='' @ [CHR 0x27] @ ''UserName''
                                      @ [CHR 0x27] @ ''], input#UserName'')))) JNull)
         (\<lambda>usernameField.
           if \<not> truthy usernameField then io_ret True
           else io_try (io_bind (pcall pg Url) (\<lambda>url. io_ret (url_away C url)))
                       (\<lambda>e. io_ret False)))"

text \<open>
  One pass of the retry loop: the \<open>try\<close> with its handler. The result pairs whether the
  heuristic held (the loop then breaks) with the error caught, if any.
\<close>

definition login_attempt ::
  "'x page \<Rightarrow> 'x host \<Rightarrow> config \<Rightarrow> obj \<Rightarrow> int \<Rightarrow> ('x world, bool \<times> js_error option) io" where
  "login_attempt pg H C r attempt =
     io_try
       (io_seq (console_log ''logging in'')
       (io_seq (attemptLogin pg H r)
       (io_bind (successHeuristic pg C) (\<lambda>held. io_ret (held, None)))))
       (\<lambda>e. io_seq (appendLog pg (''Login attempt '' @ show_int attempt @ '' error: ''
                                   @ err_message e))
                    (io_ret (False, Some e)))"

text \<open>\<open>attempt <= Math.max(1, RETRY_LOGIN)\<close>; with \<open>NaN\<close> the comparison is false.\<close>

definition attempt_allowed :: "config \<Rightarrow> int \<Rightarrow> bool" where
  "attempt_allowed C attempt =
     (case RETRY_LOGIN C of None \<Rightarrow> False | Some n \<Rightarrow> attempt \<le> max 1 n)"

function login_loop ::
  "'x page \<Rightarrow> 'x host \<Rightarrow> config \<Rightarrow> obj \<Rightarrow> int \<Rightarrow> js_error option
     \<Rightarrow> ('x world, bool \<times> js_error option) io" where
  "login_loop pg H C r attempt lastLoginError w =
     (if attempt_allowed C attempt then
        (case login_attempt pg H C r attempt w of
           (Inl e, w') \<Rightarrow> (Inl e, w')
         | (Inr (held, caught), w') \<Rightarrow>
             if held then (Inr (True, lastLoginError), w')
             else login_loop pg H C r (attempt + 1)
                    (case caught of Some e \<Rightarrow> Some e | None \<Rightarrow> lastLoginError) w')
      else (Inr (False, lastLoginError), w))"
  by pat_completeness auto
termination
  by (relation "measure (\<lambda>(pg, H, C, r, attempt, lastLoginError, w).
                  case RETRY_LOGIN C of None \<Rightarrow> 0 | Some n \<Rightarrow> nat (max 1 n + 1 - attempt))")
     (auto simp: attempt_allowed_def split: option.splits)

declare login_loop.simps [simp del]

definition openFASAndFillForm :: "'x page \<Rightarrow> 'x host \<Rightarrow> obj \<Rightarrow> ('x world, unit) io" where
  "openFASAndFillForm pg H r =
     io_try
       (io_seq (io_catch (pcall pg (Goto
           ''https://up6.uniteerp.in/FAS/TransactionPayment/TransactionPayment?formid=40004&moduleid=3''))
           JNull)
       (io_seq (console_log ''form loaded'')
       (io_seq (appendLog pg (''Waiting up to 2000 ms for form root selector: ''
                  @ sel ''formRoot'' ''#TransactionPaymentForm, #MainForm, form#TransactionPayment, form''))
       (io_bind (io_catch (pcall pg (WaitForSelector
                   (sel ''formRoot'' ''#TransactionPaymentForm, #MainForm, form#TransactionPayment, form'')
                   3000)) JNull)
       (\<lambda>present.
       io_seq (console_log ''selectors available'')
       (io_seq (if \<not> truthy present then
                  io_seq (appendLog pg (''Form root not found within timeout '' @ emdash
                                        @ '' falling back to networkidle wait.''))
                         (io_seq (io_catch (pcall pg WaitForLoadState) JNull) (io_ret ()))
                else appendLog pg (''Form root detected '' @ emdash
                                   @ '' proceeding to fill the form.''))
       (io_seq (pcall pg (WaitForTimeout 700))
               (fillTransactionPaymentForm H))))))))
       (\<lambda>e. io_seq (appendLog pg (''Optional redirect to form failed: '' @ err_message e))
                    (io_throw e))"

text \<open>
  The variables of one record that the \<open>try\<close> block sets and its handler reads. The stack
  text of an error is the engine's; the handler's log line is modelled with \<open>String(err)\<close>.
\<close>

record locals =
  l_screenshotFile :: string
  l_stateFile :: string

definition set_screenshotFile :: "string \<Rightarrow> (locals \<times> 'x world, unit) io" where
  "set_screenshotFile v = io_modify (\<lambda>(l, w). (l\<lparr>l_screenshotFile := v\<rparr>, w))"

definition set_stateFile :: "string \<Rightarrow> (locals \<times> 'x world, unit) io" where
  "set_stateFile v = io_modify (\<lambda>(l, w). (l\<lparr>l_stateFile := v\<rparr>, w))"

definition get_locals :: "(locals \<times> 'x world, locals) io" where
  "get_locals = (\<lambda>(l, w). (Inr l, (l, w)))"

definition login_failed ::
  "'x page \<Rightarrow> 'x host \<Rightarrow> config \<Rightarrow> string \<Rightarrow> js_error option \<Rightarrow> (locals \<times> 'x world, unit) io" where
  "login_failed pg H C uname lastLoginError =
     io_bind (in_page (now_io H)) (\<lambda>t.
     io_seq (set_screenshotFile (path_join (LOGS_DIR C) (uname @ ''_login_failed_'' @ t @ ''.png'')))
     (io_bind get_locals (\<lambda>l.
     io_seq (in_page (io_catch (pcall pg (Screenshot (l_screenshotFile l))) JUndefined))
     (io_seq (in_page (appendLog pg (''Login may have failed for '' @ uname @ ''. Screenshot: ''
                                     @ l_screenshotFile l)))
     (io_seq (in_page (pcall pg (WriteRecords
                \<lparr>username = uname, success = ''false'',
                 message = ''Login failed: ''
                           @ (case lastLoginError of Some e \<Rightarrow> err_message e
                              | None \<Rightarrow> ''still on login page''),
                 screenshot = l_screenshotFile l, stateFile = [],
                 targetUrl = LOGIN_URL C\<rparr>)))
             (io_ret ()))))))"

definition usedTarget :: "config \<Rightarrow> obj \<Rightarrow> string" where
  "usedTarget C r =
     (if obj_get r ''FAS_URL'' \<noteq> [] then obj_get r ''FAS_URL''
      else if obj_get r ''NextPage'' \<noteq> [] then obj_get r ''NextPage''
      else case GLOBAL_FAS_URL C of
             Some u \<Rightarrow> if u \<noteq> [] then u else LOGIN_URL C
           | None \<Rightarrow> LOGIN_URL C)"

definition check_mark :: string where
  "check_mark = [CHR 0xE2, CHR 0x9C, CHR 0x85]"

definition login_succeeded ::
  "'x page \<Rightarrow> 'x host \<Rightarrow> config \<Rightarrow> obj \<Rightarrow> string \<Rightarrow> (locals \<times> 'x world, unit) io" where
  "login_succeeded pg H C r uname =
     io_seq (in_page (appendLog pg (''Login success for '' @ uname)))
     (io_bind (in_page (now_io H)) (\<lambda>t.
     io_seq (set_stateFile (path_join (LOGS_DIR C) (uname @ ''_state_'' @ t @ ''.json'')))
     (io_bind get_locals (\<lambda>l.
     io_seq (in_page (io_catch (pcall pg (StorageState (l_stateFile l))) JUndefined))
     (io_seq (in_page (io_try (openFASAndFillForm pg H r)
                (\<lambda>e. appendLog pg (''FAS/form fill error: '' @ err_message e))))
     (io_seq (io_when (SAVE_SCREENSHOT_ON_SUCCESS C)
                (io_bind (in_page (now_io H)) (\<lambda>t2.
                 io_seq (set_screenshotFile
                           (path_join (LOGS_DIR C) (uname @ ''_success_'' @ t2 @ ''.png'')))
                 (io_bind get_locals (\<lambda>l2.
                 io_seq (in_page (io_catch (pcall pg (Screenshot (l_screenshotFile l2))) JUndefined))
                        (io_ret ()))))))
     (io_bind get_locals (\<lambda>l3.
     io_seq (in_page (pcall pg (WriteRecords
                \<lparr>username = uname, success = ''true'', message = ''OK'',
                 screenshot = l_screenshotFile l3, stateFile = l_stateFile l3,
                 targetUrl = usedTarget C r\<rparr>)))
            (in_page (appendLog pg (check_mark @ '' Done for '' @ uname)))))))))))"

definition record_body ::
  "'x page \<Rightarrow> 'x host \<Rightarrow> config \<Rightarrow> obj \<Rightarrow> string \<Rightarrow> (locals \<times> 'x world, unit) io" where
  "record_body pg H C r uname =
     io_seq (in_page (appendLog pg ([CHR 0x0A] @ ''=== Processing '' @ uname @ '' ==='')))
     (io_seq (in_page (io_catch (pcall pg (Goto (LOGIN_URL C))) JNull))
     (io_seq (in_page (pcall pg (WaitForTimeout 600)))
     (io_seq (in_page (console_log ''step 1''))
     (io_seq (in_page (io_catch (pcall pg (WaitForSelector
                (sel ''userName'' (''#UserName, input[name='' @ [CHR 0x27] @ ''UserName''
                                  @ [CHR 0x27] @ ''], input#UserName'')) 10000)) JNull))
     (io_bind (in_page (login_loop pg H C r 1 None)) (\<lambda>(loggedIn, lastLoginError).
        if \<not> loggedIn then login_failed pg H C uname lastLoginError
        else login_succeeded pg H C r uname))))))"

definition record_handler ::
  "'x page \<Rightarrow> 'x host \<Rightarrow> config \<Rightarrow> string \<Rightarrow> js_error \<Rightarrow> (locals \<times> 'x world, unit) io" where
  "record_handler pg H C uname err =
     io_seq (in_page (appendLog pg (''Error processing '' @ uname @ '': '' @ err_string err)))
     (io_bind (in_page (now_io H)) (\<lambda>t.
     io_seq (set_screenshotFile (path_join (LOGS_DIR C) (uname @ ''_error_'' @ t @ ''.png'')))
     (io_bind get_locals (\<lambda>l.
     io_seq (in_page (io_catch (pcall pg (Screenshot (l_screenshotFile l))) JUndefined))
     (io_seq (in_page (pcall pg (WriteRecords
                \<lparr>username = uname, success = ''error'', message = err_string err,
                 screenshot = l_screenshotFile l, stateFile = l_stateFile l,
                 targetUrl = []\<rparr>)))
             (io_ret ()))))))"

definition record_username :: "'x host \<Rightarrow> obj \<Rightarrow> 'x world \<Rightarrow> string" where
  "record_username H r w =
     (if obj_get r ''UserName'' \<noteq> [] then obj_get r ''UserName''
      else ''user_'' @ show_int (date_now H (hidden w)))"

definition process_record :: "'x page \<Rightarrow> 'x host \<Rightarrow> config \<Rightarrow> obj \<Rightarrow> ('x world, unit) io" where
  "process_record pg H C r =
     (\<lambda>w. case io_try (record_body pg H C r (record_username H r w))
                       (record_handler pg H C (record_username H r w))
                       (\<lparr>l_screenshotFile = [], l_stateFile = []\<rparr>, w)
           of (res, (l, w')) \<Rightarrow> (res, w'))"

text \<open>\<open>if (MAX_ROWS && processed >= MAX_ROWS) break\<close>\<close>

definition cap_reached :: "config \<Rightarrow> nat \<Rightarrow> bool" where
  "cap_reached C processed =
     (case MAX_ROWS C of None \<Rightarrow> False | Some m \<Rightarrow> m \<noteq> 0 \<and> m \<le> int processed)"

fun main_loop :: "'x page \<Rightarrow> 'x host \<Rightarrow> config \<Rightarrow> nat \<Rightarrow> obj list \<Rightarrow> ('x world, unit) io" where
  "main_loop pg H C processed [] = io_ret ()"
| "main_loop pg H C processed (r # rest) =
     (if cap_reached C processed then io_ret ()
      else io_seq (process_record pg H C r) (main_loop pg H C (Suc processed) rest))"

definition main :: "'x page \<Rightarrow> 'x host \<Rightarrow> config \<Rightarrow> excel_file \<Rightarrow> ('x world, unit) io" where
  "main pg H C f =
     io_seq (appendLog pg (''Starting automation. HEADLESS='' @ js_String (JBool (HEADLESS C))
                           @ '' DRY_RUN='' @ js_String (JBool (DRY_RUN C))))
     (io_seq (io_each console_log (warnings (readExcel f)))
        (case outcome (readExcel f) of
           Inl e \<Rightarrow> io_throw e
         | Inr rows \<Rightarrow>
             io_seq (appendLog pg (''Read '' @ show_nat (length rows) @ '' rows from Excel: ''
                                   @ EXCEL_PATH C))
             (io_seq (pcall pg Launch)
             (io_seq (pcall pg NewContext)
             (io_seq (pcall pg NewPage)
             (io_seq (main_loop pg H C 0 rows)
             (io_seq (pcall pg BrowserClose)
                     (appendLog pg ''All done.''))))))))"

section \<open>Notions used in the statements and proofs\<close>

text \<open>
  \<open>adds G n m\<close>: whatever \<open>m\<close> does to the world, it leaves the flag, the exception and the
  index of the Row Result alone, only appends to \<open>filled\<close> and \<open>errors\<close>, every appended
  error satisfies \<open>G\<close>, and when \<open>m\<close> returns normally it has appended exactly \<open>n\<close> entries.
\<close>

definition adds :: "(string \<Rightarrow> bool) \<Rightarrow> nat \<Rightarrow> (row_result \<times> 'w, 'a) io \<Rightarrow> bool" where
  "adds G n m =
     (\<forall>rr w res rr' w'. m (rr, w) = (res, (rr', w')) \<longrightarrow>
        ok rr' = ok rr \<and> exception rr' = exception rr \<and> rowIndex rr' = rowIndex rr \<and>
        (\<exists>fs es. filled rr' = filled rr @ fs \<and> errors rr' = errors rr @ es \<and>
           (\<forall>e\<in>set es. G e) \<and> ((\<exists>v. res = Inr v) \<longrightarrow> length fs + length es = n)))"


text \<open>The number of fields of a row that the fields loop does not skip.\<close>

definition filled_in :: "row \<Rightarrow> string list \<Rightarrow> nat" where
  "filled_in r ks = length (filter (\<lambda>k. \<not> is_blank (row_get r k)) ks)"

definition fresh_result :: "nat \<Rightarrow> row_result" where
  "fresh_result i = \<lparr>rowIndex = i, filled = [], errors = [], ok = None, exception = None\<rparr>"

text \<open>
  The calls issued between two states, with their results; and whether every one of them
  resolved, leaving aside the two whose rejection the source swallows on the spot
  (\<open>page.focus\<close> in \<open>setInputValue\<close>, \<open>page.select\<close> in \<open>selectOption\<close>).
\<close>

definition issued :: "'x world \<Rightarrow> 'x world \<Rightarrow> (call \<times> (js_error + jsval)) list" where
  "issued w w' = drop (length (trace w)) (trace w')"



text \<open>The pause after each row resolves, in whatever state it is issued.\<close>

definition pauses_resolve :: "'x page \<Rightarrow> bool" where
  "pauses_resolve pg = (\<forall>s. \<exists>v s'. pg (WaitForTimeout 500) s = (Inr v, s'))"

text \<open>
  \<open>page.select\<close> selected something: the test \<open>selected && selected.length\<close> on its result,
  a rejection counting as the empty array. The two matches of the page-side search by
  visible text, on an option given as (text, value).
\<close>

definition selected_some :: "js_error + jsval \<Rightarrow> bool" where
  "selected_some r = (case r of Inr a \<Rightarrow> truthy a \<and> has_length a | Inl e \<Rightarrow> False)"

definition exact_match :: "string \<Rightarrow> string \<times> string \<Rightarrow> bool" where
  "exact_match text opt = (toLowerCase (trim (fst opt)) = toLowerCase (trim text))"

definition substring_match :: "string \<Rightarrow> string \<times> string \<Rightarrow> bool" where
  "substring_match text opt = str_includes (toLowerCase (fst opt)) (toLowerCase text)"

text \<open>
  The retry loop prints \<open>logging in\<close> at the start of every attempt. \<open>quiet m\<close>: whatever
  \<open>m\<close> does, it only appends to the console, and never that line.
\<close>

definition quiet :: "('x world, 'a) io \<Rightarrow> bool" where
  "quiet m = (\<forall>w r w'. m w = (r, w') \<longrightarrow>
                (\<exists>ls. console w' = console w @ ls \<and> ''logging in'' \<notin> set ls))"

text \<open>
  The rows that reached the CSV file: the \<open>writeRecords\<close> calls that resolved, in order.
  \<open>csv_resolves\<close>: writing a row resolves, in whatever state it is issued. \<open>total m\<close>:
  \<open>m\<close> never raises. \<open>logs_row P m\<close>: \<open>m\<close> never raises and the last row written when it
  ends satisfies \<open>P\<close>; \<open>raises_or_logs P m\<close>: the same whenever \<open>m\<close> does not raise.
\<close>

fun csv_rows :: "(call \<times> (js_error + jsval)) list \<Rightarrow> csv_row list" where
  "csv_rows [] = []"
| "csv_rows ((WriteRecords row, Inr v) # tr) = row # csv_rows tr"
| "csv_rows (other # tr) = csv_rows tr"


definition total :: "('s, 'a) io \<Rightarrow> bool" where
  "total m = (\<forall>s. \<exists>v s'. m s = (Inr v, s'))"

definition logs_row :: "(csv_row \<Rightarrow> bool) \<Rightarrow> (locals \<times> 'x world, unit) io \<Rightarrow> bool" where
  "logs_row P m =
     (\<forall>l w. \<exists>l' w' rows row. m (l, w) = (Inr (), (l', w')) \<and>
        csv_rows (trace w') = rows @ [row] \<and> P row)"




section \<open>Concrete inputs\<close>

definition bad_file :: excel_file where
  "bad_file =
     \<lparr>resolved = ''/data/input.xlsx'', file_exists = True, is_file = True, file_size = 10,
      exceljs_readFile = Inl (JsError ''Error'' ''bad zip''),
      sheetjs_readFile = Inl (JsError ''Error'' ''unsupported'')\<rparr>"

text \<open>
  A sheet whose header row is \<open>UserName\<close>, \<open>hasOwnProperty\<close>, \<open>hasOwnProperty\<close>, with one data
  row, which both libraries read without complaint. sheetjs renames one of two equal
  headers; the other keeps the name.
\<close>

definition shadow_file :: excel_file where
  "shadow_file =
     \<lparr>resolved = ''/data/input.xlsx'', file_exists = True, is_file = True, file_size = 10,
      exceljs_readFile = Inr (Some
        \<lparr>row1 = [(1, Some ''UserName''), (2, Some ''hasOwnProperty''), (3, Some ''hasOwnProperty'')],
         visited = [(1, [(1, Some ''UserName''), (2, Some ''hasOwnProperty''),
                         (3, Some ''hasOwnProperty'')]),
                    (2, [(1, Some ''alice''), (2, Some ''x''), (3, Some ''y'')])]\<rparr>),
      sheetjs_readFile = Inr (Some
        [ [(''UserName'', Some ''alice''), (''hasOwnProperty'', Some ''x''),
           (''hasOwnProperty_1'', Some ''y'')] ])\<rparr>"

definition boom :: js_error where
  "boom = JsError ''Error'' ''Target closed''"


definition resolve_all :: "unit page" where
  "resolve_all c s = (Inr JNull, s)"


definition empty_world :: "unit world" where
  "empty_world = \<lparr>doc = (\<lambda>sel. None), hidden = (), trace = [], console = []\<rparr>"

definition plain_opts :: fill_opts where
  "plain_opts = \<lparr>fieldMap = None, submitAfterRow = False, clickPrepareInsteadOfPost = False,
                  redirectUrlAfterSubmit = None\<rparr>"

definition narration_row :: row where
  "narration_row = [(''Narration'', JStr ''loan''), (''ChequeNo'', JStr [])]"


definition one_sheet :: xlsx_env where
  "one_sheet = \<lparr>existsSync = (\<lambda>p. True), readExcelRows = (\<lambda>p. Inr [narration_row])\<rparr>"

text \<open>A page on which only the pause after a row rejects.\<close>

definition late_reject :: "unit page" where
  "late_reject c s = (if c = WaitForTimeout 500 then (Inl boom, s) else (Inr JNull, s))"

text \<open>
  A select with the options Cash and Transfer Voucher, and a page on which no option is
  found by value or by label: \<open>page.select\<close> resolves with the empty array and Playwright's
  \<open>selectOption\<close> times out.
\<close>

definition voucher_select :: element where
  "voucher_select =
     \<lparr>tagName = ''SELECT'', el_type = ''select-one'', readOnly = False, checked = False,
      el_value = [], options = [(''Cash'', ''C''), (''Transfer Voucher'', ''TV'')], events = []\<rparr>"

definition voucher_world :: "unit world" where
  "voucher_world =
     \<lparr>doc = [''#VoucherType'' \<mapsto> voucher_select], hidden = (), trace = [], console = []\<rparr>"

definition no_match :: js_error where
  "no_match = JsError ''TimeoutError'' ''Timeout 30000ms exceeded.''"

definition strict_page :: "unit page" where
  "strict_page c s =
     (case c of
        SelectOption sl by \<Rightarrow> (Inl no_match, s)
      | Select sl v \<Rightarrow> (Inr (JArr []), s)
      | _ \<Rightarrow> (Inr JObj, s))"

text \<open>
  A page that stays on the login form: every element is found, none is visible, and the
  address still names the login page.
\<close>

definition stuck_page :: "unit page" where
  "stuck_page c s =
     (case c of
        Query sl \<Rightarrow> (Inr JObj, s)
      | IsVisible sl \<Rightarrow> (Inr (JBool False), s)
      | Url \<Rightarrow> (Inr (JStr ''https://example.com/Login''), s)
      | _ \<Rightarrow> (Inr JNull, s))"

definition stuck_answer :: "call \<Rightarrow> jsval" where
  "stuck_answer c = (case c of Query sl \<Rightarrow> JObj | IsVisible sl \<Rightarrow> JBool False
      | Url \<Rightarrow> JStr ''https://example.com/Login'' | _ \<Rightarrow> JNull)"

definition plain_host :: "unit host" where
  "plain_host = \<lparr>date_now = (\<lambda>h. 42), formatDateForInput = (\<lambda>v. v),
                  fillTransactionPaymentForm = io_ret ()\<rparr>"

definition retries :: "int \<Rightarrow> config" where
  "retries n =
     \<lparr>LOGIN_URL = ''https://example.com/Home'', HEADLESS = False, DRY_RUN = False,
      EXCEL_PATH = ''./data/input.xlsx'', RETRY_LOGIN = Some n, MAX_ROWS = None,
      SAVE_SCREENSHOT_ON_SUCCESS = False, GLOBAL_FAS_URL = None, LOGS_DIR = ''logs''\<rparr>"

definition alice :: obj where
  "alice =
     [(''UserName'', ''alice''), (''Password'', ''secret''), (''Language'', []),
      (''LoginDataTime'', []), (''ValidateCaptcha'', []), (''NextPage'', []),
      (''Field1'', []), (''Field2'', [])]"



section \<open>Properties\<close>

subsection \<open>The Row Source\<close>

text \<open>
  C3. When the first parser (exceljs, with the normalisation inside its \<open>try\<close>) fails on a
  file that passed the precondition checks, the second parser (sheetjs) is attempted
  next; and an error comes out of \<open>readExcel\<close> on such a file only after both were
  attempted, in this order, and both failed, the error being the fatal read error
  built from the second failure.
\<close>

theorem readExcel_fallback:
  assumes "file_exists f" and "is_file f" and "file_size f \<noteq> 0"
  shows "(\<forall>e1. primary_parse f = Inl e1 \<longrightarrow> attempts (readExcel f) = [ExcelJS, SheetJS]) \<and>
         (\<forall>e. outcome (readExcel f) = Inl e \<longrightarrow>
             attempts (readExcel f) = [ExcelJS, SheetJS] \<and>
             (\<exists>e1. primary_parse f = Inl e1) \<and>
             (\<exists>e2. secondary_parse f = Inl e2 \<and>
                e = JsError ''Error''
                      (''Failed to read Excel with both exceljs and xlsx: '' @ err_text e2)))"
  using assms by (auto simp: readExcel_def Let_def split: sum.splits)

theorem readExcel_fallback_witness:
  "attempts (readExcel bad_file) = [ExcelJS, SheetJS] \<and>
   outcome (readExcel bad_file) =
     Inl (JsError ''Error'' ''Failed to read Excel with both exceljs and xlsx: unsupported'')"
proof -
  have pre: "file_exists bad_file" "is_file bad_file" "file_size bad_file \<noteq> 0"
    by (simp_all add: bad_file_def)
  have out: "outcome (readExcel bad_file) =
     Inl (JsError ''Error'' ''Failed to read Excel with both exceljs and xlsx: unsupported'')"
    by (simp add: readExcel_def bad_file_def primary_parse_def secondary_parse_def sbind_def
        err_text_def)
  from readExcel_fallback[OF pre] out show ?thesis by simp
qed

text \<open>
  Where no column is headed \<open>hasOwnProperty\<close>, normalisation succeeds and yields exactly
  the eight fields, in their fixed order.
\<close>

lemma get_total: "\<not> hasOwn ob ''hasOwnProperty'' \<Longrightarrow> \<exists>v. get ob names = Inr v"
  by (induction names) (auto simp: sbind_def call_hasOwnProperty_def split: option.splits)

lemma normalizeRow_fields:
  assumes "\<not> hasOwn ob ''hasOwnProperty''"
  shows "\<exists>rec. normalizeRow ob = Inr rec \<and>
           map fst rec = [''UserName'', ''Password'', ''Language'', ''LoginDataTime'',
                          ''ValidateCaptcha'', ''NextPage'', ''Field1'', ''Field2'']"
proof -
  have g: "\<exists>v. get ob names = Inr v" for names
    using assms by (rule get_total)
  obtain v1 where v1: "get ob [''UserName'', ''username'', ''user''] = Inr v1" using g by blast
  obtain v2 where v2: "get ob [''Password'', ''password''] = Inr v2" using g by blast
  obtain v3 where v3: "get ob [''Language'', ''language''] = Inr v3" using g by blast
  obtain v4 where v4: "get ob [''LoginDataTime'', ''loginDate'', ''LoginDate''] = Inr v4"
    using g by blast
  obtain v5 where v5: "get ob [''ValidateCaptcha'', ''captcha'', ''ValidateCaptcha''] = Inr v5"
    using g by blast
  obtain v6 where v6: "get ob [''NextPage'', ''nextpage''] = Inr v6" using g by blast
  obtain v7 where v7: "get ob [''Field1'', ''field1''] = Inr v7" using g by blast
  obtain v8 where v8: "get ob [''Field2'', ''field2''] = Inr v8" using g by blast
  show ?thesis
    unfolding normalizeRow_def field_aliases_def
    by (simp add: sbind_def v1 v2 v3 v4 v5 v6 v7 v8 del: get.simps)
qed

lemma smap_all:
  assumes "\<And>x. x \<in> set xs \<Longrightarrow> \<exists>y. f x = Inr y \<and> P y"
  shows "\<exists>ys. smap f xs = Inr ys \<and> length ys = length xs \<and> (\<forall>y\<in>set ys. P y)"
  using assms
proof (induction xs)
  case Nil
  show ?case by simp
next
  case (Cons x xs)
  from Cons.prems[of x] obtain y where y: "f x = Inr y" "P y" by auto
  from Cons.IH Cons.prems obtain ys where
    "smap f xs = Inr ys" "length ys = length xs" "\<forall>y\<in>set ys. P y" by auto
  with y show ?case by (simp add: sbind_def)
qed

text \<open>
  On a file that exceljs reads and none of whose rows holds a column headed
  \<open>hasOwnProperty\<close>, \<open>readExcel\<close> yields one Record per data row, each with the eight
  fields.
\<close>

lemma readExcel_one_record_per_row:
  assumes "file_exists f" and "is_file f" and "file_size f \<noteq> 0"
    and "exceljs_readFile f = Inr (Some ws)"
    and "\<And>cs. cs \<in> set (data_rows ws) \<Longrightarrow>
           \<not> hasOwn (row_object (build_headers (row1 ws)) cs) ''hasOwnProperty''"
  shows "\<exists>recs. outcome (readExcel f) = Inr recs \<and> length recs = length (data_rows ws) \<and>
           (\<forall>rec\<in>set recs. map fst rec =
              [''UserName'', ''Password'', ''Language'', ''LoginDataTime'',
               ''ValidateCaptcha'', ''NextPage'', ''Field1'', ''Field2''])"
proof -
  have "\<exists>recs. smap (\<lambda>cs. normalizeRow (row_object (build_headers (row1 ws)) cs)) (data_rows ws)
            = Inr recs \<and> length recs = length (data_rows ws) \<and>
           (\<forall>rec\<in>set recs. map fst rec =
              [''UserName'', ''Password'', ''Language'', ''LoginDataTime'',
               ''ValidateCaptcha'', ''NextPage'', ''Field1'', ''Field2''])"
    by (rule smap_all) (rule normalizeRow_fields, rule assms(5))
  then obtain recs where
    "primary_parse f = Inr recs" "length recs = length (data_rows ws)"
    "\<forall>rec\<in>set recs. map fst rec =
              [''UserName'', ''Password'', ''Language'', ''LoginDataTime'',
               ''ValidateCaptcha'', ''NextPage'', ''Field1'', ''Field2'']"
    using assms(4) by (auto simp: primary_parse_def sbind_def)
  with assms(1-3) show ?thesis by (simp add: readExcel_def)
qed

text \<open>A field none of whose names matches a key in any letter-casing is the empty string.\<close>

lemma get_missing:
  assumes "\<not> hasOwn ob ''hasOwnProperty''"
    and "\<And>k n. k \<in> set (object_keys ob) \<Longrightarrow> n \<in> set names \<Longrightarrow> toLowerCase k \<noteq> toLowerCase n"
  shows "get ob names = Inr []"
  using assms(2)
proof (induction names)
  case Nil
  show ?case by simp
next
  case (Cons n names)
  have none: "find (\<lambda>k. toLowerCase k = toLowerCase n) (object_keys ob) = None"
    using Cons.prems by (auto simp: find_None_iff)
  have "\<not> hasOwn ob n"
  proof
    assume "hasOwn ob n"
    then have "n \<in> set (object_keys ob)"
      by (auto simp: hasOwn_def object_keys_def dest: map_of_SomeD intro: rev_image_eqI)
    with Cons.prems[of n n] show False by simp
  qed
  with assms(1) none Cons show ?case
    by (simp add: sbind_def call_hasOwnProperty_def)
qed

text \<open>
  C4. The claim promises a Record per data row for every well-formed file, with headers
  outside the whitelist ignored. On the sheet \<open>shadow_file\<close>, which holds columns headed
  \<open>hasOwnProperty\<close>, both libraries read the file, yet \<open>normalizeRow\<close> raises a TypeError in
  both paths and \<open>readExcel\<close> ends in the fatal read error instead of yielding the Record.
\<close>

theorem readExcel_shadowed_header:
  "readExcel shadow_file =
     \<lparr>attempts = [ExcelJS, SheetJS],
      warnings = [''exceljs read failed (trying fallback). Reason: obj.hasOwnProperty is not a function''],
      outcome = Inl (JsError ''Error''
        ''Failed to read Excel with both exceljs and xlsx: obj.hasOwnProperty is not a function'')\<rparr>"
  by code_simp

theorem readExcel_shadowed_header_witness:
  "file_exists shadow_file \<and> is_file shadow_file \<and> file_size shadow_file \<noteq> 0 \<and>
   attempts (readExcel shadow_file) = [ExcelJS, SheetJS] \<and>
   (\<exists>e. outcome (readExcel shadow_file) = Inl e)"
  using readExcel_shadowed_header by (simp add: shadow_file_def)

subsection \<open>The form-fill workflow\<close>


lemma addsD:
  assumes "adds G n m" and "m (rr, w) = (res, (rr', w'))"
  shows "ok rr' = ok rr \<and> exception rr' = exception rr \<and> rowIndex rr' = rowIndex rr \<and>
        (\<exists>fs es. filled rr' = filled rr @ fs \<and> errors rr' = errors rr @ es \<and>
           (\<forall>e\<in>set es. G e) \<and> ((\<exists>v. res = Inr v) \<longrightarrow> length fs + length es = n))"
  by (rule assms(1)[unfolded adds_def, rule_format, OF assms(2)])

lemma adds_in_page: "adds G 0 (in_page m)"
  by (auto simp: adds_def in_page_def split: prod.splits)

lemma adds_ret: "adds G 0 (io_ret v)"
  by (auto simp: adds_def io_ret_def)

lemma adds_push_filled: "adds G 1 (push_filled x)"
  by (auto simp: adds_def push_filled_def io_modify_def)

lemma adds_push_error: "G e \<Longrightarrow> adds G 1 (push_error e)"
  by (auto simp: adds_def push_error_def io_modify_def)

lemma adds_bind:
  assumes "adds G a m" and "\<And>v. adds G b (f v)"
  shows "adds G (a + b) (io_bind m f)"
  unfolding adds_def
proof (intro allI impI)
  fix rr w res rr' w'
  assume run: "io_bind m f (rr, w) = (res, (rr', w'))"
  obtain r1 rr1 w1 where m: "m (rr, w) = (r1, (rr1, w1))"
    by (metis surj_pair)
  from addsD[OF assms(1) m] obtain fs1 es1 where
    a: "ok rr1 = ok rr" "exception rr1 = exception rr" "rowIndex rr1 = rowIndex rr"
       "filled rr1 = filled rr @ fs1" "errors rr1 = errors rr @ es1" "\<forall>e\<in>set es1. G e"
       "(\<exists>v. r1 = Inr v) \<longrightarrow> length fs1 + length es1 = a"
    by (elim conjE exE) blast
  show "ok rr' = ok rr \<and> exception rr' = exception rr \<and> rowIndex rr' = rowIndex rr \<and>
        (\<exists>fs es. filled rr' = filled rr @ fs \<and> errors rr' = errors rr @ es \<and>
           (\<forall>e\<in>set es. G e) \<and> ((\<exists>v. res = Inr v) \<longrightarrow> length fs + length es = a + b))"
  proof (cases r1)
    case (Inl e)
    with run m have "res = Inl e" "rr' = rr1" by (auto simp: io_bind_def)
    with a show ?thesis by auto
  next
    case (Inr v)
    with run m have "f v (rr1, w1) = (res, (rr', w'))" by (auto simp: io_bind_def)
    from addsD[OF assms(2) this] obtain fs2 es2 where
      b: "ok rr' = ok rr1" "exception rr' = exception rr1" "rowIndex rr' = rowIndex rr1"
         "filled rr' = filled rr1 @ fs2" "errors rr' = errors rr1 @ es2" "\<forall>e\<in>set es2. G e"
         "(\<exists>v. res = Inr v) \<longrightarrow> length fs2 + length es2 = b"
      by (elim conjE exE) blast
    from a b Inr have "filled rr' = filled rr @ (fs1 @ fs2)" "errors rr' = errors rr @ (es1 @ es2)"
      "\<forall>e\<in>set (es1 @ es2). G e"
      "(\<exists>v. res = Inr v) \<longrightarrow> length (fs1 @ fs2) + length (es1 @ es2) = a + b"
      by auto
    with a b show ?thesis by metis
  qed
qed

lemma adds_seq: "adds G a m \<Longrightarrow> adds G b k \<Longrightarrow> adds G (a + b) (io_seq m k)"
  unfolding io_seq_def by (rule adds_bind)

lemma adds_bind0: "adds G 0 m \<Longrightarrow> (\<And>v. adds G n (f v)) \<Longrightarrow> adds G n (io_bind m f)"
  using adds_bind[of G 0 m n f] by simp

lemma adds_seq0: "adds G 0 m \<Longrightarrow> adds G n k \<Longrightarrow> adds G n (io_seq m k)"
  using adds_seq[of G 0 m n k] by simp

lemma adds_seq_ret: "adds G n m \<Longrightarrow> adds G n (io_seq m (io_ret v))"
  using adds_seq[of G n m 0 "io_ret v"] adds_ret[of G v] by simp

lemma adds_if: "(c \<Longrightarrow> adds G n a) \<Longrightarrow> (\<not> c \<Longrightarrow> adds G n b) \<Longrightarrow> adds G n (if c then a else b)"
  by simp

lemma adds_when0: "adds G 0 m \<Longrightarrow> adds G 0 (io_when c m)"
  by (simp add: io_when_def adds_ret)




lemma field_actions_adds_any:
  "adds (\<lambda>e. True) (if is_blank (row_get r k) then 0 else 1) (field_actions pg fm r k)"
proof (cases "is_blank (row_get r k)")
  case True
  then show ?thesis by (simp add: field_actions_def adds_ret)
next
  case False
  have w: "adds (\<lambda>e. True) 1 (fill_default pg fid v)" for fid v
    unfolding fill_default_def
    by (intro adds_bind0 adds_in_page adds_if adds_push_filled adds_push_error) simp
  have "adds (\<lambda>e. True) 1 (field_actions pg fm r k)"
    unfolding field_actions_def Let_def
    apply (simp only: False if_False)
    apply (cases "mapHeaderToId fm k")
     apply (simp only: option.case)
     apply (intro adds_seq_ret adds_push_error TrueI)
    apply (simp only: option.case)
    apply (intro adds_bind0 adds_in_page adds_if adds_seq_ret adds_push_filled adds_push_error w adds_ret TrueI)
    done
  with False show ?thesis by simp
qed


lemma adds_bind_then0: "adds G n m \<Longrightarrow> (\<And>v. adds G 0 (f v)) \<Longrightarrow> adds G n (io_bind m f)"
  using adds_bind[of G n m 0 f] by simp

lemma field_step_adds:
  assumes "adds G n (field_actions pg fm r k)"
  shows "adds G n (field_step pg fm r k)"
  unfolding field_step_def
  by (intro adds_bind_then0 assms adds_when0 adds_seq0 adds_in_page adds_ret)

lemma adds_each:
  assumes "\<And>k. k \<in> set ks \<Longrightarrow> adds G (c k) (f k)"
  shows "adds G (sum_list (map c ks)) (io_each f ks)"
  using assms
proof (induction ks)
  case Nil
  show ?case by (simp add: adds_ret)
next
  case (Cons k ks)
  have "adds G (c k + sum_list (map c ks)) (io_seq (f k) (io_each f ks))"
    by (rule adds_seq) (simp_all add: Cons)
  then show ?case by simp
qed

lemma sum_blank: "sum_list (map (\<lambda>k. if is_blank (row_get r k) then 0 else 1) ks) = filled_in r ks"
  unfolding filled_in_def by (induction ks) auto

lemma row_steps_adds_any: "adds (\<lambda>e. True) (filled_in r (map fst r)) (row_steps pg fm opts r)"
proof -
  have "adds (\<lambda>e. True) (sum_list (map (\<lambda>k. if is_blank (row_get r k) then 0 else 1) (map fst r)))
          (io_each (field_step pg fm r) (map fst r))"
    by (rule adds_each) (rule field_step_adds, rule field_actions_adds_any)
  then have loop: "adds (\<lambda>e. True) (filled_in r (map fst r)) (io_each (field_step pg fm r) (map fst r))"
    by (simp only: sum_blank)
  have rest: "adds (\<lambda>e. True) 0 (io_seq (in_page (total_amount_step pg r))
     (io_seq (in_page (save_disbursement_step pg r)) (in_page (submit_step pg opts))))"
    by (intro adds_seq0 adds_in_page)
  have full: "adds (\<lambda>e. True) (filled_in r (map fst r)) (io_seq (io_each (field_step pg fm r) (map fst r))
     (io_seq (in_page (total_amount_step pg r))
     (io_seq (in_page (save_disbursement_step pg r)) (in_page (submit_step pg opts)))))"
    using adds_seq[OF loop rest] by simp
  show ?thesis
    unfolding row_steps_def by (rule adds_seq0[OF adds_in_page full])
qed


lemma process_row_cases:
  "(\<exists>rr1 w1. row_steps pg fm opts r (fresh_result i, w) = (Inr (), (rr1, w1)) \<and>
       process_row pg fm opts i r w = (Inr (rr1\<lparr>ok := Some True\<rparr>), w1)) \<or>
   (\<exists>e rr1 w1. row_steps pg fm opts r (fresh_result i, w) = (Inl e, (rr1, w1)) \<and>
       process_row pg fm opts i r w =
         (Inr (rr1\<lparr>ok := Some False, exception := Some (err_text e)\<rparr>), w1))"
proof -
  obtain res rr1 w1 where st: "row_steps pg fm opts r (fresh_result i, w) = (res, (rr1, w1))"
    by (metis surj_pair)
  show ?thesis
  proof (cases res)
    case (Inl e)
    with st show ?thesis
      by (simp add: process_row_def row_body_def io_try_def io_seq_def io_bind_def io_modify_def
          fresh_result_def)
  next
    case (Inr u)
    with st show ?thesis
      by (simp add: process_row_def row_body_def io_try_def io_seq_def io_bind_def io_modify_def
          fresh_result_def)
  qed
qed

lemma process_row_shape:
  "\<exists>rr w'. process_row pg fm opts i r w = (Inr rr, w') \<and> rowIndex rr = i \<and>
     (ok rr = Some True \<or> ok rr = Some False) \<and>
     ((ok rr = Some False) = (exception rr \<noteq> None)) \<and>
     ((ok rr = Some False) = (\<exists>e. fst (row_steps pg fm opts r (fresh_result i, w)) = Inl e)) \<and>
     (\<forall>e. fst (row_steps pg fm opts r (fresh_result i, w)) = Inl e \<longrightarrow>
          exception rr = Some (err_text e)) \<and>
     (exception rr = None \<longrightarrow>
        length (filled rr) + length (errors rr) = filled_in r (map fst r))"
  using process_row_cases[of pg fm opts r i w]
proof (elim disjE exE conjE)
  fix rr1 w1
  assume st: "row_steps pg fm opts r (fresh_result i, w) = (Inr (), (rr1, w1))"
    and pr: "process_row pg fm opts i r w = (Inr (rr1\<lparr>ok := Some True\<rparr>), w1)"
  from addsD[OF row_steps_adds_any st] show ?thesis
    using st pr by (auto simp: fresh_result_def)
next
  fix e rr1 w1
  assume st: "row_steps pg fm opts r (fresh_result i, w) = (Inl e, (rr1, w1))"
    and pr: "process_row pg fm opts i r w =
         (Inr (rr1\<lparr>ok := Some False, exception := Some (err_text e)\<rparr>), w1)"
  from addsD[OF row_steps_adds_any st] show ?thesis
    using st pr by (auto simp: fresh_result_def)
qed






text \<open>The rows loop: one Row Result per row, each with its index, in order.\<close>

lemma pcall_cases:
  "(\<exists>v w'. pcall pg c w = (Inr v, w') \<and> trace w' = trace w @ [(c, Inr v)]) \<or>
   (\<exists>e w'. pcall pg c w = (Inl e, w') \<and> trace w' = trace w @ [(c, Inl e)])"
proof -
  obtain r d h where "pg c (doc w, hidden w) = (r, (d, h))" by (metis surj_pair)
  then show ?thesis by (cases r) (simp_all add: pcall_def)
qed

lemma process_row_returns:
  "\<exists>rr w'. process_row pg fm opts i r w = (Inr rr, w') \<and> rowIndex rr = i"
  using process_row_shape[of pg fm opts i r w] by blast

lemma rows_loop_Inr:
  "rows_loop pg fm opts i rows acc w = (Inr results, w') \<Longrightarrow>
     \<exists>new. results = acc @ new \<and> length new = length rows \<and>
           (\<forall>j<length rows. rowIndex (new ! j) = i + j)"
proof (induction rows arbitrary: i acc w)
  case Nil
  then show ?case by (simp add: io_ret_def)
next
  case (Cons r rest)
  obtain rr w1 where pr: "process_row pg fm opts i r w = (Inr rr, w1)" and ix: "rowIndex rr = i"
    using process_row_returns by blast
  from pcall_cases[of pg "WaitForTimeout 500" w1] show ?case
  proof (elim disjE exE conjE)
    fix v w2
    assume p: "pcall pg (WaitForTimeout 500) w1 = (Inr v, w2)"
    with Cons.prems pr have "rows_loop pg fm opts (Suc i) rest (acc @ [rr]) w2 = (Inr results, w')"
      by (simp add: io_bind_def io_seq_def)
    from Cons.IH[OF this] obtain new where
      n: "results = (acc @ [rr]) @ new" "length new = length rest"
         "\<forall>j<length rest. rowIndex (new ! j) = Suc i + j"
      by blast
    have "\<forall>j<length (r # rest). rowIndex ((rr # new) ! j) = i + j"
    proof (intro allI impI)
      fix j assume "j < length (r # rest)"
      then show "rowIndex ((rr # new) ! j) = i + j"
        using n(3) ix by (cases j) auto
    qed
    with n show ?thesis by (intro exI[of _ "rr # new"]) simp
  next
    fix e w2
    assume "pcall pg (WaitForTimeout 500) w1 = (Inl e, w2)"
    with Cons.prems pr show ?thesis by (simp add: io_bind_def io_seq_def)
  qed
qed

lemma rows_loop_total:
  assumes "pauses_resolve pg"
  shows "\<exists>results w'. rows_loop pg fm opts i rows acc w = (Inr results, w')"
proof (induction rows arbitrary: i acc w)
  case Nil
  show ?case by (simp add: io_ret_def)
next
  case (Cons r rest)
  obtain rr w1 where pr: "process_row pg fm opts i r w = (Inr rr, w1)"
    using process_row_returns by blast
  from assms obtain v s' where "pg (WaitForTimeout 500) (doc w1, hidden w1) = (Inr v, s')"
    unfolding pauses_resolve_def by blast
  then obtain w2 where p: "pcall pg (WaitForTimeout 500) w1 = (Inr v, w2)"
    by (cases s') (simp add: pcall_def)
  from Cons.IH[of "Suc i" "acc @ [rr]" w2] pr p show ?case
    by (simp add: io_bind_def io_seq_def)
qed

lemma rows_loop_Inl:
  "rows_loop pg fm opts i rows acc w = (Inl e, w') \<Longrightarrow>
     \<exists>tr. trace w' = tr @ [(WaitForTimeout 500, Inl e)]"
proof (induction rows arbitrary: i acc w)
  case Nil
  then show ?case by (simp add: io_ret_def)
next
  case (Cons r rest)
  obtain rr w1 where pr: "process_row pg fm opts i r w = (Inr rr, w1)"
    using process_row_returns by blast
  from pcall_cases[of pg "WaitForTimeout 500" w1] show ?case
  proof (elim disjE exE conjE)
    fix v w2
    assume p: "pcall pg (WaitForTimeout 500) w1 = (Inr v, w2)"
    with Cons.prems pr have "rows_loop pg fm opts (Suc i) rest (acc @ [rr]) w2 = (Inl e, w')"
      by (simp add: io_bind_def io_seq_def)
    from Cons.IH[OF this] show ?thesis .
  next
    fix e' w2
    assume p: "pcall pg (WaitForTimeout 500) w1 = (Inl e', w2)"
      and t: "trace w2 = trace w1 @ [(WaitForTimeout 500, Inl e')]"
    with Cons.prems pr have "e' = e" "w2 = w'" by (simp_all add: io_bind_def io_seq_def)
    with t show ?thesis by blast
  qed
qed

lemma fill_unfold:
  assumes "existsSync fs p" and "readExcelRows fs p = Inr rows" and "rows \<noteq> []"
    and "rows_loop pg (case fieldMap opts of Some m \<Rightarrow> m | None \<Rightarrow> DEFAULT_FIELD_MAP)
           opts 0 rows [] w = (lr, w1)"
  shows "fillLoanDisbursementFromExcel pg fs p opts w =
           (case lr of Inl e \<Rightarrow> Inl e
            | Inr results \<Rightarrow> Inr \<lparr>res_ok = True, res_message = None,
                        res_rows = Some (length rows), res_results = Some results\<rparr>, w1)"
  using assms
  by (cases lr) (simp_all add: fillLoanDisbursementFromExcel_def io_bind_def io_ret_def Let_def)

text \<open>
  C10, as amended. For an existing file whose parse yields \<open>n \<ge> 1\<close> rows: whenever the call
  returns, it returns ok true, rows \<open>n\<close> and \<open>n\<close> Row Results whose i-th has index i; it does
  return when the pause after each row resolves; and when it raises instead, the error
  is that of a rejected pause, the last call issued. With zero rows it returns ok false
  with the message and issues no call.
\<close>

theorem fill_results_per_row:
  assumes "existsSync fs p" and "readExcelRows fs p = Inr rows"
  shows "(rows = [] \<longrightarrow>
            fillLoanDisbursementFromExcel pg fs p opts w =
              (Inr \<lparr>res_ok = False, res_message = Some ''No rows in excel'',
                    res_rows = None, res_results = None\<rparr>, w)) \<and>
         (rows \<noteq> [] \<longrightarrow>
            (\<forall>res. fst (fillLoanDisbursementFromExcel pg fs p opts w) = Inr res \<longrightarrow>
               res_ok res \<and> res_rows res = Some (length rows) \<and>
               (\<exists>results. res_results res = Some results \<and> length results = length rows \<and>
                  (\<forall>j<length rows. rowIndex (results ! j) = j))) \<and>
            (pauses_resolve pg \<longrightarrow>
               (\<exists>res. fst (fillLoanDisbursementFromExcel pg fs p opts w) = Inr res)) \<and>
            (\<forall>e. fst (fillLoanDisbursementFromExcel pg fs p opts w) = Inl e \<longrightarrow>
               (\<exists>tr. trace (snd (fillLoanDisbursementFromExcel pg fs p opts w)) =
                      tr @ [(WaitForTimeout 500, Inl e)])))"
proof -
  let ?run = "fillLoanDisbursementFromExcel pg fs p opts w"
  have none: "?run = (Inr \<lparr>res_ok = False, res_message = Some ''No rows in excel'',
                    res_rows = None, res_results = None\<rparr>, w)" if "rows = []"
    using assms that by (simp add: fillLoanDisbursementFromExcel_def io_ret_def)
  obtain lr w1 where l: "rows_loop pg (case fieldMap opts of Some m \<Rightarrow> m | None \<Rightarrow> DEFAULT_FIELD_MAP)
           opts 0 rows [] w = (lr, w1)" by (metis surj_pair)
  have shape: "res_ok res \<and> res_rows res = Some (length rows) \<and>
               (\<exists>results. res_results res = Some results \<and> length results = length rows \<and>
                  (\<forall>j<length rows. rowIndex (results ! j) = j))"
    if ne: "rows \<noteq> []" and r: "fst ?run = Inr res" for res
  proof -
    from fill_unfold[OF assms ne l] r obtain results where
      lr: "lr = Inr results" and res: "res = \<lparr>res_ok = True, res_message = None,
                        res_rows = Some (length rows), res_results = Some results\<rparr>"
      by (cases lr) auto
    from rows_loop_Inr[OF l[unfolded lr]] have "length results = length rows"
      "\<forall>j<length rows. rowIndex (results ! j) = j" by auto
    with res show ?thesis by simp
  qed
  have total: "\<exists>res. fst ?run = Inr res" if ne: "rows \<noteq> []" and pr: "pauses_resolve pg"
  proof -
    from rows_loop_total[OF pr, of "case fieldMap opts of Some m \<Rightarrow> m | None \<Rightarrow> DEFAULT_FIELD_MAP"
        opts 0 rows "[]" w] l
    obtain results where "lr = Inr results" by auto
    with fill_unfold[OF assms ne l] show ?thesis by simp
  qed
  have raised: "\<exists>tr. trace (snd ?run) = tr @ [(WaitForTimeout 500, Inl e)]"
    if ne: "rows \<noteq> []" and r: "fst ?run = Inl e" for e
  proof -
    from fill_unfold[OF assms ne l] r have lr: "lr = Inl e"
      by (cases lr) simp_all
    from fill_unfold[OF assms ne l] have s: "snd ?run = w1"
      by simp
    from rows_loop_Inl[OF l[unfolded lr]] s show ?thesis by simp
  qed
  from none shape total raised show ?thesis by blast
qed

theorem fill_results_per_row_witness:
  "existsSync one_sheet ''loans.xlsx'' \<and>
   readExcelRows one_sheet ''loans.xlsx'' = Inr [narration_row] \<and>
   pauses_resolve resolve_all \<and>
   (\<exists>res. fst (fillLoanDisbursementFromExcel resolve_all one_sheet ''loans.xlsx'' plain_opts
                 empty_world) = Inr res \<and>
      res_ok res \<and> res_rows res = Some 1 \<and>
      res_results res = Some [\<lparr>rowIndex = 0, filled = [''Narration''], errors = [],
                                ok = Some True, exception = None\<rparr>])"
proof -
  have a: "existsSync one_sheet ''loans.xlsx''" by (simp add: one_sheet_def)
  have b: "readExcelRows one_sheet ''loans.xlsx'' = Inr [narration_row]"
    by (simp add: one_sheet_def)
  have c: "pauses_resolve resolve_all" by (simp add: pauses_resolve_def resolve_all_def)
  have run: "fst (fillLoanDisbursementFromExcel resolve_all one_sheet ''loans.xlsx'' plain_opts
                 empty_world) =
     Inr \<lparr>res_ok = True, res_message = None, res_rows = Some 1,
          res_results = Some [\<lparr>rowIndex = 0, filled = [''Narration''], errors = [],
                                ok = Some True, exception = None\<rparr>]\<rparr>"
    by code_simp
  from fill_results_per_row[OF a b, of resolve_all plain_opts empty_world] a b c
  show ?thesis unfolding run by simp
qed

text \<open>
  The claim as written has the call return for every such file. On a page where the
  pause after a row rejects, the row is processed and then the call raises.
\<close>

theorem fill_rejected_pause_counterexample:
  "existsSync one_sheet ''loans.xlsx'' \<and>
   readExcelRows one_sheet ''loans.xlsx'' = Inr [narration_row] \<and>
   fst (fillLoanDisbursementFromExcel late_reject one_sheet ''loans.xlsx'' plain_opts
          empty_world) = Inl boom"
proof -
  have run: "fst (fillLoanDisbursementFromExcel late_reject one_sheet ''loans.xlsx'' plain_opts
          empty_world) = Inl boom"
    by code_simp
  then show ?thesis by (simp add: one_sheet_def)
qed

subsection \<open>Safe DOM Actions\<close>


















subsection \<open>The order of the selection attempts\<close>

lemma selectOption_order:
  assumes "v \<noteq> JUndefined" and "v \<noteq> JNull"
  shows "(\<exists>e. issued w (snd (selectOption pg s v w)) = [(WaitForSelector s 4000, Inl e)] \<and>
              fst (selectOption pg s v w) = Inr False) \<or>
         (\<exists>x r1 rest. issued w (snd (selectOption pg s v w)) =
              (WaitForSelector s 4000, Inr x) # (Select s (js_String v), r1) # rest \<and>
            (selected_some r1 \<longrightarrow> (\<forall>t r. (Evaluate (SelectByText s t), r) \<notin> set rest)) \<and>
            (\<not> selected_some r1 \<longrightarrow>
               (\<exists>r2 rest'. rest = (Evaluate (SelectByText s (js_String v)), r2) # rest')))"
  using assms
  unfolding selectOption_def io_try_def io_catch_def io_seq_def io_bind_def io_ret_def pcall_def evaluate_def issued_def selected_some_def
  by (auto split: prod.splits sum.splits if_splits)

lemma safeSelect_order:
  assumes "s \<noteq> []" and "v \<noteq> JUndefined" and "v \<noteq> JNull"
  shows "\<exists>r0. (\<exists>x. issued w (snd (safeSelect pg s v opts w)) =
              [(WaitForSelector s (or_default (timeout opts) 4000), r0),
               (SelectOption s (ByString (js_String v)), Inr x)]) \<or>
         (\<exists>e r2. issued w (snd (safeSelect pg s v opts w)) =
              [(WaitForSelector s (or_default (timeout opts) 4000), r0),
               (SelectOption s (ByString (js_String v)), Inl e),
               (SelectOption s (ByLabel (js_String v)), r2)])"
  using assms
  unfolding safeSelect_def io_try_def io_catch_def io_seq_def io_bind_def io_ret_def pcall_def issued_def
  by (auto split: prod.splits sum.splits if_splits)

lemma selectByText_cascade:
  assumes "d s = Some el"
  shows "selectByText_js s text d =
     (case find (exact_match text) (options el) of
        Some opt \<Rightarrow> (JBool True, d(s \<mapsto> fire [''change''] (el\<lparr>el_value := snd opt\<rparr>)))
      | None \<Rightarrow>
         (case find (substring_match text) (options el) of
            Some opt \<Rightarrow> (JBool True, d(s \<mapsto> fire [''change''] (el\<lparr>el_value := snd opt\<rparr>)))
          | None \<Rightarrow> (JBool False, d)))"
proof -
  have a: "(\<lambda>(otext, ovalue). toLowerCase (trim otext) = toLowerCase (trim text)) = exact_match text"
    by (auto simp: exact_match_def fun_eq_iff)
  have b: "(\<lambda>(otext, ovalue). str_includes (toLowerCase otext) (toLowerCase text)) = substring_match text"
    by (auto simp: substring_match_def fun_eq_iff)
  show ?thesis using assms unfolding selectByText_js_def a b
    by (auto split: option.splits)
qed

text \<open>
  C7, as amended. The workflow's \<open>selectOption\<close>, for a value that is neither null nor
  undefined: after the wait, the first call is \<open>page.select\<close> with the value; when that
  selected something the search by visible text is never run; when it did not (or
  rejected) the very next call is that search. The search takes the first option whose
  trimmed text equals the trimmed value without regard to case and, only when there is
  none, the first option whose text contains the value without regard to case; with
  neither it changes nothing and answers false. The driver's \<open>safeSelect\<close> issues, after
  its wait, Playwright's selection by the string and, only when that rejects, the
  selection by label, and nothing else.
\<close>

theorem select_cascade:
  "(v \<noteq> JUndefined \<and> v \<noteq> JNull \<longrightarrow>
      (\<exists>e. issued w (snd (selectOption pg s v w)) = [(WaitForSelector s 4000, Inl e)] \<and>
           fst (selectOption pg s v w) = Inr False) \<or>
      (\<exists>x r1 rest. issued w (snd (selectOption pg s v w)) =
           (WaitForSelector s 4000, Inr x) # (Select s (js_String v), r1) # rest \<and>
         (selected_some r1 \<longrightarrow> (\<forall>t r. (Evaluate (SelectByText s t), r) \<notin> set rest)) \<and>
         (\<not> selected_some r1 \<longrightarrow>
            (\<exists>r2 rest'. rest = (Evaluate (SelectByText s (js_String v)), r2) # rest')))) \<and>
   (\<forall>el. d s = Some el \<longrightarrow>
      selectByText_js s text d =
        (case find (exact_match text) (options el) of
           Some opt \<Rightarrow> (JBool True, d(s \<mapsto> fire [''change''] (el\<lparr>el_value := snd opt\<rparr>)))
         | None \<Rightarrow>
            (case find (substring_match text) (options el) of
               Some opt \<Rightarrow> (JBool True, d(s \<mapsto> fire [''change''] (el\<lparr>el_value := snd opt\<rparr>)))
             | None \<Rightarrow> (JBool False, d)))) \<and>
   (s \<noteq> [] \<and> v \<noteq> JUndefined \<and> v \<noteq> JNull \<longrightarrow>
      (\<exists>r0. (\<exists>x. issued w (snd (safeSelect pg s v opts w)) =
              [(WaitForSelector s (or_default (timeout opts) 4000), r0),
               (SelectOption s (ByString (js_String v)), Inr x)]) \<or>
         (\<exists>e r2. issued w (snd (safeSelect pg s v opts w)) =
              [(WaitForSelector s (or_default (timeout opts) 4000), r0),
               (SelectOption s (ByString (js_String v)), Inl e),
               (SelectOption s (ByLabel (js_String v)), r2)])))"
  using selectOption_order[of v w pg s] selectByText_cascade[of d s _ "text"]
    safeSelect_order[of s v w pg opts]
  by blast

theorem select_cascade_witness:
  "JStr ''transfer'' \<noteq> JUndefined \<and> JStr ''transfer'' \<noteq> JNull \<and>
   issued voucher_world
     (snd (selectOption strict_page ''#VoucherType'' (JStr ''transfer'') voucher_world)) =
     [(WaitForSelector ''#VoucherType'' 4000, Inr JObj),
      (Select ''#VoucherType'' ''transfer'', Inr (JArr [])),
      (Evaluate (SelectByText ''#VoucherType'' ''transfer''), Inr JObj),
      (WaitForTimeout 100, Inr JObj)] \<and>
   \<not> selected_some (Inr (JArr [])) \<and>
   fst (selectOption strict_page ''#VoucherType'' (JStr ''transfer'') voucher_world) = Inr True \<and>
   map_option el_value
     (doc (snd (selectOption strict_page ''#VoucherType'' (JStr ''transfer'') voucher_world))
        ''#VoucherType'') = Some ''TV''"
proof -
  have run: "issued voucher_world
     (snd (selectOption strict_page ''#VoucherType'' (JStr ''transfer'') voucher_world)) =
     [(WaitForSelector ''#VoucherType'' 4000, Inr JObj),
      (Select ''#VoucherType'' ''transfer'', Inr (JArr [])),
      (Evaluate (SelectByText ''#VoucherType'' ''transfer''), Inr JObj),
      (WaitForTimeout 100, Inr JObj)]"
    by code_simp
  have res: "fst (selectOption strict_page ''#VoucherType'' (JStr ''transfer'') voucher_world) = Inr True"
    by code_simp
  have val: "map_option el_value
     (doc (snd (selectOption strict_page ''#VoucherType'' (JStr ''transfer'') voucher_world))
        ''#VoucherType'') = Some ''TV''"
    by code_simp
  from select_cascade[of "JStr ''transfer''" voucher_world strict_page "''#VoucherType''"]
    run res val
  show ?thesis by (simp add: selected_some_def)
qed

text \<open>
  The claim as written has the select-option action go on to a substring match. On the
  select \<open>voucher_select\<close> the option Transfer Voucher contains the value \<open>transfer\<close>; the
  driver's \<open>safeSelect\<close> tries the string and the label, both time out, nothing is
  selected, and it returns true.
\<close>

theorem safeSelect_no_substring_counterexample:
  "find (substring_match ''transfer'') (options voucher_select) = Some (''Transfer Voucher'', ''TV'') \<and>
   fst (safeSelect strict_page ''#VoucherType'' (JStr ''transfer'') no_opts voucher_world) = Inr True \<and>
   issued voucher_world
     (snd (safeSelect strict_page ''#VoucherType'' (JStr ''transfer'') no_opts voucher_world)) =
     [(WaitForSelector ''#VoucherType'' 4000, Inr JObj),
      (SelectOption ''#VoucherType'' (ByString ''transfer''), Inl no_match),
      (SelectOption ''#VoucherType'' (ByLabel ''transfer''), Inl no_match)] \<and>
   map_option el_value
     (doc (snd (safeSelect strict_page ''#VoucherType'' (JStr ''transfer'') no_opts voucher_world))
        ''#VoucherType'') = Some []"
  by code_simp

subsection \<open>The retry loop of the driver\<close>

lemma quietD:
  assumes "quiet m" and "m w = (r, w')"
  shows "\<exists>ls. console w' = console w @ ls \<and> ''logging in'' \<notin> set ls"
  by (rule assms(1)[unfolded quiet_def, rule_format, OF assms(2)])

lemma quiet_ret: "quiet (io_ret v)"
  by (simp add: quiet_def io_ret_def)

lemma quiet_throw: "quiet (io_throw e)"
  by (simp add: quiet_def io_throw_def)

lemma quiet_pcall: "quiet (pcall pg c)"
  by (auto simp: quiet_def pcall_def split: prod.splits)

lemma quiet_console_log: "line \<noteq> ''logging in'' \<Longrightarrow> quiet (console_log line)"
  by (auto simp: quiet_def console_log_def io_modify_def)

lemma quiet_bind:
  assumes "quiet m" and "\<And>v. quiet (f v)"
  shows "quiet (io_bind m f)"
  unfolding quiet_def
proof (intro allI impI)
  fix w r w'
  assume run: "io_bind m f w = (r, w')"
  obtain r1 w1 where m: "m w = (r1, w1)" by (metis surj_pair)
  from quietD[OF assms(1) m] obtain ls1 where
    a: "console w1 = console w @ ls1" "''logging in'' \<notin> set ls1" by blast
  show "\<exists>ls. console w' = console w @ ls \<and> ''logging in'' \<notin> set ls"
  proof (cases r1)
    case (Inl e)
    with run m have "w' = w1" by (simp add: io_bind_def)
    with a show ?thesis by blast
  next
    case (Inr v)
    with run m have "f v w1 = (r, w')" by (simp add: io_bind_def)
    from quietD[OF assms(2) this] obtain ls2 where
      "console w' = console w1 @ ls2" "''logging in'' \<notin> set ls2" by blast
    with a have "console w' = console w @ (ls1 @ ls2)" "''logging in'' \<notin> set (ls1 @ ls2)" by auto
    then show ?thesis by blast
  qed
qed

lemma quiet_seq: "quiet m \<Longrightarrow> quiet k \<Longrightarrow> quiet (io_seq m k)"
  unfolding io_seq_def by (rule quiet_bind)

lemma quiet_try:
  assumes "quiet m" and "\<And>e. quiet (h e)"
  shows "quiet (io_try m h)"
  unfolding quiet_def
proof (intro allI impI)
  fix w r w'
  assume run: "io_try m h w = (r, w')"
  obtain r1 w1 where m: "m w = (r1, w1)" by (metis surj_pair)
  from quietD[OF assms(1) m] obtain ls1 where
    a: "console w1 = console w @ ls1" "''logging in'' \<notin> set ls1" by blast
  show "\<exists>ls. console w' = console w @ ls \<and> ''logging in'' \<notin> set ls"
  proof (cases r1)
    case (Inr v)
    with run m have "w' = w1" by (simp add: io_try_def)
    with a show ?thesis by blast
  next
    case (Inl e)
    with run m have "h e w1 = (r, w')" by (simp add: io_try_def)
    from quietD[OF assms(2) this] obtain ls2 where
      "console w' = console w1 @ ls2" "''logging in'' \<notin> set ls2" by blast
    with a have "console w' = console w @ (ls1 @ ls2)" "''logging in'' \<notin> set (ls1 @ ls2)" by auto
    then show ?thesis by blast
  qed
qed

lemma quiet_catch: "quiet m \<Longrightarrow> quiet (io_catch m v)"
  unfolding io_catch_def by (rule quiet_try) (simp_all add: quiet_ret)

lemma quiet_when: "quiet m \<Longrightarrow> quiet (io_when c m)"
  by (simp add: io_when_def quiet_ret)

lemma quiet_if: "(c \<Longrightarrow> quiet a) \<Longrightarrow> (\<not> c \<Longrightarrow> quiet b) \<Longrightarrow> quiet (if c then a else b)"
  by simp

lemma quiet_appendLog: "line \<noteq> ''logging in'' \<Longrightarrow> quiet (appendLog pg line)"
  unfolding appendLog_def by (intro quiet_seq quiet_catch quiet_pcall quiet_console_log)

lemma quiet_safeFill: "quiet (safeFill pg s v opts)"
  unfolding safeFill_def
  by (intro quiet_if quiet_ret quiet_try quiet_seq quiet_catch quiet_pcall)

lemma quiet_attemptLogin: "quiet (attemptLogin pg H r)"
  unfolding attemptLogin_def waitForManualCaptchaSolve_def
  by (intro quiet_seq quiet_bind quiet_when quiet_catch quiet_safeFill quiet_pcall quiet_ret
        quiet_console_log quiet_appendLog) simp_all

lemma quiet_first_visible: "quiet (first_visible pg ss)"
  by (induction ss)
     (auto intro!: quiet_ret quiet_bind quiet_catch quiet_pcall quiet_if)

lemma quiet_successHeuristic: "quiet (successHeuristic pg C)"
  unfolding successHeuristic_def
  by (intro quiet_bind quiet_if quiet_ret quiet_catch quiet_pcall quiet_try quiet_first_visible)


lemma appendLog_returns: "\<exists>w'. appendLog pg line w = (Inr (), w')"
  unfolding appendLog_def io_seq_def io_bind_def io_catch_def io_try_def io_ret_def
    console_log_def io_modify_def
  by (auto split: prod.splits sum.splits)

lemma login_attempt_says:
  assumes "login_attempt pg H C r a w = (res, w')"
  shows "(\<exists>b c. res = Inr (b, c)) \<and>
         (\<exists>ls. console w' = console w @ ''logging in'' # ls \<and> ''logging in'' \<notin> set ls)"
proof -
  let ?rest = "io_seq (attemptLogin pg H r)
                 (io_bind (successHeuristic pg C) (\<lambda>held. io_ret (held, None :: js_error option)))"
  let ?h = "\<lambda>e. io_seq (appendLog pg (''Login attempt '' @ show_int a @ '' error: ''
                                   @ err_message e))
                    (io_ret (False, Some e))"
  let ?w0 = "w\<lparr>console := console w @ [''logging in'']\<rparr>"
  have q: "quiet ?rest"
    by (intro quiet_seq quiet_bind quiet_attemptLogin quiet_successHeuristic quiet_ret)
  have qh: "quiet (?h e)" for e
    by (intro quiet_seq quiet_appendLog quiet_ret) simp
  obtain r1 w1 where rest: "?rest ?w0 = (r1, w1)" by (metis surj_pair)
  from quietD[OF q rest] obtain ls1 where
    l1: "console w1 = console w @ ''logging in'' # ls1" "''logging in'' \<notin> set ls1" by auto
  have body: "io_seq (console_log ''logging in'') ?rest w = (r1, w1)"
    using rest by (simp add: io_seq_def io_bind_def console_log_def io_modify_def)
  show ?thesis
  proof (cases r1)
    case (Inr x)
    with assms body have "res = Inr x" "w' = w1"
      by (simp_all add: login_attempt_def io_try_def)
    with l1 show ?thesis by (cases x) auto
  next
    case (Inl e)
    with assms body have hr: "?h e w1 = (res, w')"
      by (simp add: login_attempt_def io_try_def)
    obtain w2 where "appendLog pg (''Login attempt '' @ show_int a @ '' error: ''
                                   @ err_message e) w1 = (Inr (), w2)"
      using appendLog_returns by blast
    with hr have res: "res = Inr (False, Some e)" by (simp add: io_seq_def io_bind_def io_ret_def)
    from quietD[OF qh hr] obtain ls2 where
      "console w' = console w1 @ ls2" "''logging in'' \<notin> set ls2" by blast
    with l1 have "console w' = console w @ ''logging in'' # (ls1 @ ls2)"
      "''logging in'' \<notin> set (ls1 @ ls2)" by auto
    with res show ?thesis by blast
  qed
qed

lemma login_loop_counts:
  assumes "RETRY_LOGIN C = Some N"
  shows "\<exists>li le w' ls. login_loop pg H C r a lastErr w = (Inr (li, le), w') \<and>
           console w' = console w @ ls \<and>
           count_list ls ''logging in'' \<le> nat (max 1 N + 1 - a) \<and>
           (\<not> li \<longrightarrow> count_list ls ''logging in'' = nat (max 1 N + 1 - a))"
  using assms
proof (induction pg H C r a lastErr w rule: login_loop.induct)
  case (1 pg H C r attempt lastLoginError w)
  note assms = \<open>RETRY_LOGIN C = Some N\<close>
  show ?case
  proof (cases "attempt_allowed C attempt")
    case False
    then have "nat (max 1 N + 1 - attempt) = 0"
      using assms by (simp add: attempt_allowed_def)
    with False show ?thesis
      by (subst login_loop.simps) auto
  next
    case True
    then have le: "attempt \<le> max 1 N" using assms by (simp add: attempt_allowed_def)
    obtain res w1 where att: "login_attempt pg H C r attempt w = (res, w1)" by (metis surj_pair)
    from login_attempt_says[OF att] obtain held caught ls1 where
      res: "res = Inr (held, caught)" and
      c1: "console w1 = console w @ ''logging in'' # ls1" "''logging in'' \<notin> set ls1"
      by blast
    have one: "count_list (''logging in'' # ls1) ''logging in'' = 1"
      using c1(2) by (simp add: count_list_0_iff)
    show ?thesis
    proof (cases held)
      case True
      with \<open>attempt_allowed C attempt\<close> att res
      have "login_loop pg H C r attempt lastLoginError w = (Inr (True, lastLoginError), w1)"
        by (subst login_loop.simps) simp
      moreover have "count_list (''logging in'' # ls1) ''logging in'' \<le> nat (max 1 N + 1 - attempt)"
        using one le by simp
      ultimately show ?thesis using c1(1) by blast
    next
      case False
      let ?le = "case caught of Some e \<Rightarrow> Some e | None \<Rightarrow> lastLoginError"
      from "1.IH"[OF \<open>attempt_allowed C attempt\<close> att[symmetric] res refl False assms]
      obtain li le' w' ls where
        ih: "login_loop pg H C r (attempt + 1) ?le w1 = (Inr (li, le'), w')"
            "console w' = console w1 @ ls"
            "count_list ls ''logging in'' \<le> nat (max 1 N + 1 - (attempt + 1))"
            "\<not> li \<longrightarrow> count_list ls ''logging in'' = nat (max 1 N + 1 - (attempt + 1))"
        using res by auto
      from \<open>attempt_allowed C attempt\<close> att res False ih(1)
      have run: "login_loop pg H C r attempt lastLoginError w = (Inr (li, le'), w')"
        by (subst login_loop.simps) simp
      have cons: "console w' = console w @ ((''logging in'' # ls1) @ ls)"
        using c1(1) ih(2) by simp
      have cnt: "count_list ((''logging in'' # ls1) @ ls) ''logging in''
                   = 1 + count_list ls ''logging in''"
        using one by simp
      have a1: "count_list ((''logging in'' # ls1) @ ls) ''logging in'' \<le> nat (max 1 N + 1 - attempt)"
        using cnt ih(3) le by linarith
      have a2: "\<not> li \<longrightarrow> count_list ((''logging in'' # ls1) @ ls) ''logging in''
                  = nat (max 1 N + 1 - attempt)"
        using cnt ih(4) le by auto
      from run cons a1 a2 show ?thesis by blast
    qed
  qed
qed

text \<open>
  C5, as amended. Every attempt prints \<open>logging in\<close> once, and nothing else prints it, so
  the line counts the attempts. With \<open>RETRY_LOGIN = N\<close> the loop makes at most
  \<open>max 1 N\<close> attempts, and exactly that many when it ends without a login (the record is
  then marked failed); with \<open>NaN\<close> it makes none. An attempt on which the heuristic holds
  ends the loop in the state that attempt left: no further attempt follows.
\<close>

theorem login_attempts_bounded:
  "(RETRY_LOGIN C = Some N \<longrightarrow>
      (\<exists>li le w' ls. login_loop pg H C r 1 None w = (Inr (li, le), w') \<and>
          console w' = console w @ ls \<and>
          count_list ls ''logging in'' \<le> nat (max 1 N) \<and>
          (\<not> li \<longrightarrow> count_list ls ''logging in'' = nat (max 1 N)))) \<and>
   (RETRY_LOGIN C = None \<longrightarrow> login_loop pg H C r 1 None w = (Inr (False, None), w)) \<and>
   (attempt_allowed C a \<and> login_attempt pg H C r a w = (Inr (True, caught), w1) \<longrightarrow>
      login_loop pg H C r a lastErr w = (Inr (True, lastErr), w1)) \<and>
   (\<forall>res w2. login_attempt pg H C r a w = (res, w2) \<longrightarrow>
      count_list (drop (length (console w)) (console w2)) ''logging in'' = 1)"
proof -
  have bound: "\<exists>li le w' ls. login_loop pg H C r 1 None w = (Inr (li, le), w') \<and>
          console w' = console w @ ls \<and>
          count_list ls ''logging in'' \<le> nat (max 1 N) \<and>
          (\<not> li \<longrightarrow> count_list ls ''logging in'' = nat (max 1 N))"
    if "RETRY_LOGIN C = Some N"
    using login_loop_counts[OF that, of pg H r 1 None w] by simp
  have nan: "login_loop pg H C r 1 None w = (Inr (False, None), w)" if "RETRY_LOGIN C = None"
    using that by (subst login_loop.simps) (simp add: attempt_allowed_def)
  have stop: "login_loop pg H C r a lastErr w = (Inr (True, lastErr), w1)"
    if "attempt_allowed C a \<and> login_attempt pg H C r a w = (Inr (True, caught), w1)"
    using that by (subst login_loop.simps) simp
  have once: "count_list (drop (length (console w)) (console w2)) ''logging in'' = 1"
    if "login_attempt pg H C r a w = (res, w2)" for res w2
  proof -
    from login_attempt_says[OF that] obtain ls where
      "console w2 = console w @ ''logging in'' # ls" "''logging in'' \<notin> set ls" by blast
    then show ?thesis by (simp add: count_list_0_iff)
  qed
  from bound nan stop once show ?thesis by blast
qed

lemma stuck_pcall:
  "pcall stuck_page c w = (Inr (stuck_answer c), w\<lparr>trace := trace w @ [(c, Inr (stuck_answer c))]\<rparr>)"
  by (cases c) (simp_all add: pcall_def stuck_page_def stuck_answer_def)

lemmas run_defs = io_try_def io_catch_def io_seq_def io_bind_def io_ret_def io_throw_def
  io_when_def io_modify_def console_log_def appendLog_def

lemma stuck_attempt:
  "\<exists>w'. login_attempt stuck_page H (retries n) alice a w = (Inr (False, None), w')"
  by (simp add: login_attempt_def attemptLogin_def safeFill_def waitForManualCaptchaSolve_def
      successHeuristic_def url_away_def retries_def run_defs stuck_pcall
      stuck_answer_def alice_def obj_get_def no_opts_def or_default_def)

lemma stuck_loop:
  "pg = stuck_page \<Longrightarrow> C = retries n \<Longrightarrow> r = alice \<Longrightarrow>
     fst (login_loop pg H C r a le w) = Inr (False, le)"
proof (induction pg H C r a le w rule: login_loop.induct)
  case (1 pg H C r attempt lastLoginError w)
  show ?case
  proof (cases "attempt_allowed C attempt")
    case False
    then show ?thesis by (subst login_loop.simps) simp
  next
    case True
    from stuck_attempt[of H n attempt w] "1.prems" obtain w1 where
      att: "login_attempt pg H C r attempt w = (Inr (False, None), w1)" by auto
    from "1.IH"[OF True att[symmetric] refl refl _ "1.prems"]
    have "fst (login_loop pg H C r (attempt + 1) lastLoginError w1) = Inr (False, lastLoginError)"
      by simp
    with True att show ?thesis by (subst login_loop.simps) simp
  qed
qed

theorem login_attempts_bounded_witness:
  "RETRY_LOGIN (retries 3) = Some 3 \<and>
   fst (login_loop stuck_page plain_host (retries 3) alice 1 None empty_world) = Inr (False, None) \<and>
   count_list (console (snd (login_loop stuck_page plain_host (retries 3) alice 1 None empty_world)))
     ''logging in'' = 3"
proof -
  have cfg: "RETRY_LOGIN (retries 3) = Some 3" by (simp add: retries_def)
  have res: "fst (login_loop stuck_page plain_host (retries 3) alice 1 None empty_world)
               = Inr (False, None)"
    by (rule stuck_loop[OF refl refl refl])
  have e: "console empty_world = []" by (simp add: empty_world_def)
  from login_attempts_bounded[of "retries 3" 3 stuck_page plain_host alice empty_world] cfg
  obtain li le w' ls where
    h: "login_loop stuck_page plain_host (retries 3) alice 1 None empty_world = (Inr (li, le), w')"
       "console w' = console empty_world @ ls"
       "\<not> li \<longrightarrow> count_list ls ''logging in'' = nat (max 1 3)"
    by blast
  from h(1) res have "\<not> li" by simp
  with h e have "count_list (console (snd (login_loop stuck_page plain_host (retries 3) alice 1 None
      empty_world))) ''logging in'' = 3" by simp
  with cfg res show ?thesis by simp
qed

text \<open>
  The claim as written bounds the attempts by N itself. With \<open>RETRY_LOGIN = 0\<close> one attempt
  is made before the record is marked failed.
\<close>

theorem login_attempts_zero_counterexample:
  "RETRY_LOGIN (retries 0) = Some 0 \<and>
   fst (login_loop stuck_page plain_host (retries 0) alice 1 None empty_world) = Inr (False, None) \<and>
   count_list (console (snd (login_loop stuck_page plain_host (retries 0) alice 1 None empty_world)))
     ''logging in'' = 1"
proof -
  have cfg: "RETRY_LOGIN (retries 0) = Some 0" by (simp add: retries_def)
  have res: "fst (login_loop stuck_page plain_host (retries 0) alice 1 None empty_world)
               = Inr (False, None)"
    by (rule stuck_loop[OF refl refl refl])
  have e: "console empty_world = []" by (simp add: empty_world_def)
  from login_loop_counts[OF cfg, of stuck_page plain_host alice 1 None empty_world]
  obtain li le w' ls where
    h: "login_loop stuck_page plain_host (retries 0) alice 1 None empty_world = (Inr (li, le), w')"
       "console w' = console empty_world @ ls"
       "\<not> li \<longrightarrow> count_list ls ''logging in'' = nat (max 1 0 + 1 - 1)"
    by blast
  from h(1) res have "\<not> li" by simp
  with h e have "count_list (console (snd (login_loop stuck_page plain_host (retries 0) alice 1 None
      empty_world))) ''logging in'' = 1" by simp
  with cfg res show ?thesis by simp
qed

subsection \<open>The main loop of the driver\<close>




















lemma login_attempt_returns: "\<exists>b c w'. login_attempt pg H C r a w = (Inr (b, c), w')"
proof -
  obtain res w' where "login_attempt pg H C r a w = (res, w')" by (metis surj_pair)
  with login_attempt_says[OF this] show ?thesis by blast
qed

lemma total_login_loop: "total (login_loop pg H C r a le)"
  unfolding total_def
proof
  fix w
  show "\<exists>v s'. login_loop pg H C r a le w = (Inr v, s')"
  proof (induction pg H C r a le w rule: login_loop.induct)
    case (1 pg H C r attempt lastLoginError w)
    show ?case
    proof (cases "attempt_allowed C attempt")
      case False
      then show ?thesis by (subst login_loop.simps) auto
    next
      case True
      from login_attempt_returns obtain held caught w1 where
        att: "login_attempt pg H C r attempt w = (Inr (held, caught), w1)" by blast
      show ?thesis
      proof (cases held)
        case True
        with \<open>attempt_allowed C attempt\<close> att show ?thesis by (subst login_loop.simps) auto
      next
        case False
        from "1.IH"[OF \<open>attempt_allowed C attempt\<close> att[symmetric] refl refl False]
        obtain v s' where "login_loop pg H C r (attempt + 1)
            (case caught of None \<Rightarrow> lastLoginError | Some e \<Rightarrow> Some e) w1 = (Inr v, s')" by blast
        with \<open>attempt_allowed C attempt\<close> att False show ?thesis
          by (subst login_loop.simps) simp
      qed
    qed
  qed
qed





lemma logs_row_if:
  "(c \<Longrightarrow> logs_row P a) \<Longrightarrow> (\<not> c \<Longrightarrow> logs_row P b) \<Longrightarrow> logs_row P (if c then a else b)"
  by simp




















end
